theory Spec2Isabelle
  imports Complex_Main "HOL-Library.Multiset"
begin

section \<open>JavaScript strings\<close>

text \<open>
  A JavaScript string is a sequence of UTF-16 code units; a code unit is modelled by its
  number. \<open>js\<close> turns an ASCII literal of this theory into such a sequence.
\<close>

type_synonym jsstring = "nat list"

definition js :: "string \<Rightarrow> jsstring" where
  "js s = map of_char s"

text \<open>
  \<open>String.prototype.toUpperCase\<close> and \<open>toLowerCase\<close>, on the ASCII letters. The program
  applies them to the keys of its table and to text a key has matched, and both consist of
  ASCII code units only (\<open>keys_ascii\<close>, \<open>raw_ascii\<close> below).
\<close>

definition upperUnit :: "nat \<Rightarrow> nat" where
  "upperUnit c = (if 97 \<le> c \<and> c \<le> 122 then c - 32 else c)"

definition lowerUnit :: "nat \<Rightarrow> nat" where
  "lowerUnit c = (if 65 \<le> c \<and> c \<le> 90 then c + 32 else c)"

definition toUpperCase :: "jsstring \<Rightarrow> jsstring" where
  "toUpperCase s = map upperUnit s"

definition toLowerCase :: "jsstring \<Rightarrow> jsstring" where
  "toLowerCase s = map lowerUnit s"

section \<open>The alias table (timezone-data.js)\<close>

text \<open>The entries of \<open>TIMEZONE_MAP\<close>, in the order of the source.\<close>

definition TIMEZONE_ENTRIES :: "(string \<times> string) list" where
  "TIMEZONE_ENTRIES = [
    (''Eastern Standard Time'', ''America/New_York''),
    (''Eastern Daylight Time'', ''America/New_York''),
    (''Eastern Time'', ''America/New_York''),
    (''Eastern'', ''America/New_York''),
    (''EST'', ''America/New_York''),
    (''EDT'', ''America/New_York''),
    (''ET'', ''America/New_York''),
    (''Central Standard Time'', ''America/Chicago''),
    (''Central Daylight Time'', ''America/Chicago''),
    (''Central Time'', ''America/Chicago''),
    (''Central'', ''America/Chicago''),
    (''CST'', ''America/Chicago''),
    (''CDT'', ''America/Chicago''),
    (''CT'', ''America/Chicago''),
    (''Mountain Standard Time'', ''America/Denver''),
    (''Mountain Daylight Time'', ''America/Denver''),
    (''Mountain Time'', ''America/Denver''),
    (''Mountain'', ''America/Denver''),
    (''MST'', ''America/Denver''),
    (''MDT'', ''America/Denver''),
    (''MT'', ''America/Denver''),
    (''Pacific Standard Time'', ''America/Los_Angeles''),
    (''Pacific Daylight Time'', ''America/Los_Angeles''),
    (''Pacific Time'', ''America/Los_Angeles''),
    (''Pacific'', ''America/Los_Angeles''),
    (''PST'', ''America/Los_Angeles''),
    (''PDT'', ''America/Los_Angeles''),
    (''PT'', ''America/Los_Angeles''),
    (''Alaska Standard Time'', ''America/Anchorage''),
    (''Alaska Daylight Time'', ''America/Anchorage''),
    (''Alaska Time'', ''America/Anchorage''),
    (''Alaska'', ''America/Anchorage''),
    (''AKST'', ''America/Anchorage''),
    (''AKDT'', ''America/Anchorage''),
    (''AKT'', ''America/Anchorage''),
    (''Hawaii Standard Time'', ''Pacific/Honolulu''),
    (''Hawaii Time'', ''Pacific/Honolulu''),
    (''Hawaii'', ''Pacific/Honolulu''),
    (''HST'', ''Pacific/Honolulu''),
    (''HT'', ''Pacific/Honolulu''),
    (''Atlantic Standard Time'', ''America/Halifax''),
    (''Atlantic Daylight Time'', ''America/Halifax''),
    (''Atlantic Time'', ''America/Halifax''),
    (''Atlantic'', ''America/Halifax''),
    (''AST'', ''America/Halifax''),
    (''ADT'', ''America/Halifax''),
    (''AT'', ''America/Halifax''),
    (''UTC'', ''UTC''),
    (''GMT'', ''GMT''),
    (''Central European Summer Time'', ''Europe/Paris''),
    (''Central European Time'', ''Europe/Paris''),
    (''CEST'', ''Europe/Paris''),
    (''CET'', ''Europe/Paris''),
    (''British Summer Time'', ''Europe/London''),
    (''British'', ''Europe/London''),
    (''BST'', ''Europe/London''),
    (''Western European Summer Time'', ''Europe/Lisbon''),
    (''Western European Time'', ''Europe/Lisbon''),
    (''WEST'', ''Europe/Lisbon''),
    (''WET'', ''Europe/Lisbon''),
    (''Eastern European Summer Time'', ''Europe/Helsinki''),
    (''Eastern European Time'', ''Europe/Helsinki''),
    (''EEST'', ''Europe/Helsinki''),
    (''EET'', ''Europe/Helsinki''),
    (''IST'', ''Asia/Kolkata''),
    (''India'', ''Asia/Kolkata''),
    (''Indian Standard Time'', ''Asia/Kolkata''),
    (''JST'', ''Asia/Tokyo''),
    (''Japan'', ''Asia/Tokyo''),
    (''Japan Standard Time'', ''Asia/Tokyo''),
    (''KST'', ''Asia/Seoul''),
    (''Korea'', ''Asia/Seoul''),
    (''Korea Standard Time'', ''Asia/Seoul''),
    (''CST+8'', ''Asia/Shanghai''),
    (''China'', ''Asia/Shanghai''),
    (''China Standard Time'', ''Asia/Shanghai''),
    (''SGT'', ''Asia/Singapore''),
    (''Singapore'', ''Asia/Singapore''),
    (''Singapore Time'', ''Asia/Singapore''),
    (''HKT'', ''Asia/Hong_Kong''),
    (''Hong Kong'', ''Asia/Hong_Kong''),
    (''ICT'', ''Asia/Bangkok''),
    (''Indochina'', ''Asia/Bangkok''),
    (''PKT'', ''Asia/Karachi''),
    (''Pakistan'', ''Asia/Karachi''),
    (''AEST'', ''Australia/Sydney''),
    (''AEDT'', ''Australia/Sydney''),
    (''Australian Eastern Time'', ''Australia/Sydney''),
    (''Australian Eastern Standard Time'', ''Australia/Sydney''),
    (''Australian Eastern Daylight Time'', ''Australia/Sydney''),
    (''ACST'', ''Australia/Adelaide''),
    (''ACDT'', ''Australia/Adelaide''),
    (''Australian Central Time'', ''Australia/Adelaide''),
    (''AWST'', ''Australia/Perth''),
    (''Australian Western Time'', ''Australia/Perth''),
    (''Australian Western Standard Time'', ''Australia/Perth''),
    (''NZST'', ''Pacific/Auckland''),
    (''NZDT'', ''Pacific/Auckland''),
    (''New Zealand'', ''Pacific/Auckland''),
    (''New Zealand Standard Time'', ''Pacific/Auckland''),
    (''New Zealand Daylight Time'', ''Pacific/Auckland''),
    (''BRT'', ''America/Sao_Paulo''),
    (''Brazil'', ''America/Sao_Paulo''),
    (''Brasilia'', ''America/Sao_Paulo''),
    (''ART'', ''America/Argentina/Buenos_Aires''),
    (''Argentina'', ''America/Argentina/Buenos_Aires'')
  ]"

text \<open>
  \<open>new Map(entries)\<close>: a key keeps the position of its first entry and the value of its
  last one. \<open>mapKeys\<close> is \<open>Map.prototype.keys\<close>, \<open>mapGet\<close> is \<open>Map.prototype.get\<close>
  (\<open>None\<close> is JavaScript's \<open>undefined\<close>).
\<close>

definition TIMEZONE_MAP :: "(jsstring \<times> string) list" where
  "TIMEZONE_MAP = map (\<lambda>(k, v). (js k, v)) TIMEZONE_ENTRIES"

definition mapKeys :: "('k \<times> 'v) list \<Rightarrow> 'k list" where
  "mapKeys es = rev (remdups (rev (map fst es)))"

definition mapGet :: "('k \<times> 'v) list \<Rightarrow> 'k \<Rightarrow> 'v option" where
  "mapGet es k = map_of (rev es) k"

text \<open>
  \<open>SORTED_KEYS = [...TIMEZONE_MAP.keys()].sort((a, b) => b.length - a.length)\<close>:
  a stable sort, the longer key first.
\<close>

definition SORTED_KEYS :: "jsstring list" where
  "SORTED_KEYS = sort_key (\<lambda>k. - int (length k)) (mapKeys TIMEZONE_MAP)"

section \<open>The scanning pattern\<close>

text \<open>
  \<open>TIMEZONE_REGEX\<close> is the alternation of \<open>\bKEY\b\<close> over \<open>SORTED_KEYS\<close>, in that order,
  with the flags \<open>g\<close> and \<open>i\<close>. The replacement of \<open>[.*+?^${}()|[\]\\]\<close> escapes every pattern
  character of a key, so a key stands for its own code units.

  \<open>\w\<close> is \<open>[A-Za-z0-9_]\<close>. Under the flag \<open>i\<close> (without \<open>u\<close>) two code units match when
  their canonical forms agree; the canonical form of a code unit below 128 is its upper
  case, and that of a code unit from 128 on is never below 128. The pattern has ASCII
  code units only, so \<open>canonicalize\<close> decides every comparison the pattern makes.
\<close>

definition isWordChar :: "nat \<Rightarrow> bool" where
  "isWordChar c = ((48 \<le> c \<and> c \<le> 57) \<or> (65 \<le> c \<and> c \<le> 90) \<or> c = 95 \<or> (97 \<le> c \<and> c \<le> 122))"

definition canonicalize :: "nat \<Rightarrow> nat" where
  "canonicalize c = upperUnit c"

text \<open>
  The position of a scan is given by the code unit before it (\<open>None\<close> at the start of the
  text) and the text from it on: \<open>prev = text[lastIndex - 1]\<close>, \<open>rest = text.slice(lastIndex)\<close>.
\<close>

definition firstUnit :: "jsstring \<Rightarrow> nat option" where
  "firstUnit s = (case s of [] \<Rightarrow> None | c # _ \<Rightarrow> Some c)"

definition lastUnit :: "nat option \<Rightarrow> jsstring \<Rightarrow> nat option" where
  "lastUnit prev s = (if s = [] then prev else Some (last s))"

definition wordBoundary :: "nat option \<Rightarrow> nat option \<Rightarrow> bool" where
  "wordBoundary a b =
     ((case a of None \<Rightarrow> False | Some c \<Rightarrow> isWordChar c) \<noteq>
      (case b of None \<Rightarrow> False | Some c \<Rightarrow> isWordChar c))"

fun matchLiteral :: "jsstring \<Rightarrow> jsstring \<Rightarrow> (jsstring \<times> jsstring) option" where
  "matchLiteral [] text = Some ([], text)"
| "matchLiteral (k # ks) [] = None"
| "matchLiteral (k # ks) (c # cs) =
     (if canonicalize k = canonicalize c
      then (case matchLiteral ks cs of
              None \<Rightarrow> None
            | Some (raw, rest) \<Rightarrow> Some (c # raw, rest))
      else None)"

text \<open>One alternative \<open>\bKEY\b\<close> at the current position: the matched text and what follows it.\<close>

definition matchAlternative :: "nat option \<Rightarrow> jsstring \<Rightarrow> jsstring \<Rightarrow> (jsstring \<times> jsstring) option" where
  "matchAlternative prev text key =
     (if wordBoundary prev (firstUnit text)
      then (case matchLiteral key text of
              None \<Rightarrow> None
            | Some (raw, rest) \<Rightarrow>
                if wordBoundary (lastUnit prev raw) (firstUnit rest) then Some (raw, rest) else None)
      else None)"

text \<open>The alternation at the current position: the first alternative that matches.\<close>

fun matchAt :: "jsstring list \<Rightarrow> nat option \<Rightarrow> jsstring \<Rightarrow> (jsstring \<times> jsstring) option" where
  "matchAt [] prev text = None"
| "matchAt (key # keys) prev text =
     (case matchAlternative prev text key of
        Some m \<Rightarrow> Some m
      | None \<Rightarrow> matchAt keys prev text)"

text \<open>
  \<open>TIMEZONE_REGEX.exec(text)\<close> from \<open>lastIndex\<close>: the leftmost position at which the
  alternation matches. The result is the text skipped, the match \<open>match[0]\<close> and the text
  after it, where the next call resumes.
\<close>

fun regexExec :: "jsstring list \<Rightarrow> nat option \<Rightarrow> jsstring \<Rightarrow> (jsstring \<times> jsstring \<times> jsstring) option" where
  "regexExec keys prev [] =
     (case matchAt keys prev [] of
        None \<Rightarrow> None
      | Some (raw, rest) \<Rightarrow> Some ([], raw, rest))"
| "regexExec keys prev (c # cs) =
     (case matchAt keys prev (c # cs) of
        Some (raw, rest) \<Rightarrow> Some ([], raw, rest)
      | None \<Rightarrow>
          (case regexExec keys (Some c) cs of
             None \<Rightarrow> None
           | Some (skipped, raw, rest) \<Rightarrow> Some (c # skipped, raw, rest)))"

section \<open>detectTimezone\<close>

definition isFalsePositive :: "jsstring \<Rightarrow> bool" where
  "isFalsePositive raw =
     (let isShortWord = (length raw \<le> 5 \<and> 32 \<notin> set raw)
      in isShortWord \<and> raw \<noteq> toUpperCase raw)"

text \<open>The inner loop of \<open>detectTimezone\<close>: the first key whose lower case is \<open>lc\<close>.\<close>

fun findKey :: "jsstring list \<Rightarrow> jsstring \<Rightarrow> jsstring option" where
  "findKey [] lc = None"
| "findKey (key # keys) lc = (if toLowerCase key = lc then Some key else findKey keys lc)"

subsection \<open>What a match consumes\<close>

text \<open>
  The loop of \<open>detectTimezone\<close> calls \<open>exec\<close> until it returns \<open>null\<close>. Every match
  consumes at least one code unit, because no key is empty, so the loop ends; the facts
  that show it come before the loop.
\<close>

lemma matchLiteral_Some:
  "matchLiteral key tx = Some (raw, rest) \<Longrightarrow>
     tx = raw @ rest \<and> length raw = length key \<and> map canonicalize raw = map canonicalize key"
  by (induction key tx arbitrary: raw rest rule: matchLiteral.induct)
     (auto split: if_splits option.splits)

lemma matchAlternative_Some:
  "matchAlternative prev tx key = Some (raw, rest) \<Longrightarrow>
     matchLiteral key tx = Some (raw, rest) \<and> wordBoundary prev (firstUnit tx)
     \<and> wordBoundary (lastUnit prev raw) (firstUnit rest)"
  by (auto simp: matchAlternative_def split: if_splits option.splits)

lemma matchAt_Some:
  "matchAt keys prev tx = Some m \<Longrightarrow> \<exists>key \<in> set keys. matchAlternative prev tx key = Some m"
  by (induction keys) (auto split: option.splits)

lemma regexExec_matchAt:
  "regexExec keys prev tx = Some (skipped, raw, rest) \<Longrightarrow>
     tx = skipped @ raw @ rest \<and>
     matchAt keys (lastUnit prev skipped) (raw @ rest) = Some (raw, rest)"
proof (induction keys prev tx arbitrary: skipped rule: regexExec.induct)
  case (1 keys prev)
  then have m: "matchAt keys prev [] = Some (raw, rest)" "skipped = []"
    by (auto split: option.splits)
  then obtain key where "matchAlternative prev [] key = Some (raw, rest)"
    by (auto dest: matchAt_Some)
  then have "[] = raw @ rest" by (auto dest!: matchAlternative_Some matchLiteral_Some)
  with m show ?case by (simp add: lastUnit_def)
next
  case (2 keys prev c cs)
  show ?case
  proof (cases "matchAt keys prev (c # cs)")
    case None
    with 2(2) obtain sk where sk: "regexExec keys (Some c) cs = Some (sk, raw, rest)" "skipped = c # sk"
      by (auto split: option.splits)
    from 2(1)[OF None sk(1)] have ih: "cs = sk @ raw @ rest"
      "matchAt keys (lastUnit (Some c) sk) (raw @ rest) = Some (raw, rest)"
      by simp_all
    have "lastUnit prev (c # sk) = lastUnit (Some c) sk" by (simp add: lastUnit_def)
    with ih sk show ?thesis by simp
  next
    case (Some m)
    with 2(2) have eq: "skipped = []" "m = (raw, rest)" by (auto split: prod.splits)
    from Some eq obtain key where "matchAlternative prev (c # cs) key = Some (raw, rest)"
      by (auto dest: matchAt_Some)
    then have "c # cs = raw @ rest" by (auto dest!: matchAlternative_Some matchLiteral_Some)
    with Some eq show ?thesis by (simp add: lastUnit_def)
  qed
qed

lemma set_SORTED_KEYS: "set SORTED_KEYS = (\<lambda>e. js (fst e)) ` set TIMEZONE_ENTRIES"
  by (simp add: SORTED_KEYS_def mapKeys_def TIMEZONE_MAP_def image_image split_def)

lemma entries_nonempty: "list_all (\<lambda>e. fst e \<noteq> []) TIMEZONE_ENTRIES"
  by (simp add: TIMEZONE_ENTRIES_def)

lemma keys_nonempty: "[] \<notin> set SORTED_KEYS"
  using entries_nonempty by (auto simp: set_SORTED_KEYS list_all_iff js_def)

lemma regexExec_shorter:
  assumes "[] \<notin> set keys" "regexExec keys prev tx = Some (skipped, raw, rest)"
  shows "length rest < length tx"
proof -
  from regexExec_matchAt[OF assms(2)] obtain key where
    tx: "tx = skipped @ raw @ rest" and key: "key \<in> set keys"
    and m: "matchAlternative (lastUnit prev skipped) (raw @ rest) key = Some (raw, rest)"
    by (auto dest: matchAt_Some)
  from m have "length raw = length key"
    using matchAlternative_Some matchLiteral_Some by blast
  moreover from key assms(1) have "key \<noteq> []" by auto
  ultimately have "raw \<noteq> []" by auto
  with tx show ?thesis by simp
qed

subsection \<open>The loop\<close>

text \<open>
  \<open>TIMEZONE_MAP.get(key)\<close> is \<open>undefined\<close> for a key the map does not have; the keys of
  the loop are keys of the map (\<open>mapGet_key\<close> below), so the function returns a zone
  or \<open>null\<close> (\<open>None\<close>).
\<close>

function detectLoop :: "nat option \<Rightarrow> jsstring \<Rightarrow> string option" where
  "detectLoop prev txt =
     (case regexExec SORTED_KEYS prev txt of
        None \<Rightarrow> None
      | Some (skipped, raw, rest) \<Rightarrow>
          if isFalsePositive raw then detectLoop (lastUnit prev (skipped @ raw)) rest
          else (case findKey SORTED_KEYS (toLowerCase raw) of
                  Some key \<Rightarrow> mapGet TIMEZONE_MAP key
                | None \<Rightarrow> detectLoop (lastUnit prev (skipped @ raw)) rest))"
  by pat_completeness auto
termination
proof (relation "measure (\<lambda>(prev, tx). length tx)")
  show "wf (measure (\<lambda>(prev :: nat option, tx :: jsstring). length tx))" by simp
next
  fix prev :: "nat option" and tx x2 skipped y raw rest
  assume "regexExec SORTED_KEYS prev tx = Some x2" "(skipped, y) = x2" "(raw, rest) = y"
  then have "regexExec SORTED_KEYS prev tx = Some (skipped, raw, rest)" by simp
  from regexExec_shorter[OF keys_nonempty this]
  show "((lastUnit prev (skipped @ raw), rest), prev, tx) \<in> measure (\<lambda>(prev, tx). length tx)"
    by simp
next
  fix prev :: "nat option" and tx x2 skipped y raw rest
  assume "regexExec SORTED_KEYS prev tx = Some x2" "(skipped, y) = x2" "(raw, rest) = y"
  then have "regexExec SORTED_KEYS prev tx = Some (skipped, raw, rest)" by simp
  from regexExec_shorter[OF keys_nonempty this]
  show "((lastUnit prev (skipped @ raw), rest), prev, tx) \<in> measure (\<lambda>(prev, tx). length tx)"
    by simp
qed

text \<open>\<open>TIMEZONE_REGEX.lastIndex = 0\<close>: the scan starts at the beginning of the text.\<close>

definition detectTimezone :: "jsstring \<Rightarrow> string option" where
  "detectTimezone txt = detectLoop None txt"

section \<open>The module state\<close>

text \<open>
  What \<open>detectTimezone\<close> can reach of the module: the table \<open>TIMEZONE_MAP\<close> and the
  \<open>lastIndex\<close> of \<open>TIMEZONE_REGEX\<close>. \<open>SORTED_KEYS\<close> and the pattern are built once, when
  the module is loaded.
\<close>

record moduleState =
  tzMap :: "(jsstring \<times> string) list"
  lastIndex :: nat

text \<open>
  The loop with its state: \<open>exec\<close> scans from \<open>lastIndex\<close> and sets it to the end of the
  match, or to 0 when nothing matches; the table is read with \<open>get\<close>.
\<close>

lemma detectLoopM_decreases:
  assumes "regexExec SORTED_KEYS prev (drop i tx) = Some (skipped, raw, rest)"
  shows "length tx - (i + length skipped + length raw) < length tx - i"
proof -
  from regexExec_matchAt[OF assms] have d: "drop i tx = skipped @ raw @ rest" by simp
  from regexExec_shorter[OF keys_nonempty assms] have "length rest < length (drop i tx)" .
  moreover have "length (drop i tx) = length skipped + length raw + length rest"
    unfolding d by simp
  moreover have "length (drop i tx) = length tx - i" by simp
  ultimately show ?thesis by linarith
qed

function detectLoopM :: "moduleState \<Rightarrow> jsstring \<Rightarrow> string option \<times> moduleState" where
  "detectLoopM m txt =
     (case regexExec SORTED_KEYS (lastUnit None (take (lastIndex m) txt)) (drop (lastIndex m) txt) of
        None \<Rightarrow> (None, m\<lparr>lastIndex := 0\<rparr>)
      | Some (skipped, raw, rest) \<Rightarrow>
          if isFalsePositive raw
          then detectLoopM (m\<lparr>lastIndex := lastIndex m + length skipped + length raw\<rparr>) txt
          else (case findKey SORTED_KEYS (toLowerCase raw) of
                  Some key \<Rightarrow>
                    (mapGet (tzMap m) key,
                     m\<lparr>lastIndex := lastIndex m + length skipped + length raw\<rparr>)
                | None \<Rightarrow>
                    detectLoopM (m\<lparr>lastIndex := lastIndex m + length skipped + length raw\<rparr>) txt))"
  by pat_completeness auto
termination
proof (relation "measure (\<lambda>(m, tx). length tx - lastIndex m)")
  show "wf (measure (\<lambda>(m :: moduleState, tx :: jsstring). length tx - lastIndex m))" by simp
next
  fix m :: moduleState and tx x2 skipped y raw rest
  assume "regexExec SORTED_KEYS (lastUnit None (take (lastIndex m) tx)) (drop (lastIndex m) tx) = Some x2"
    "(skipped, y) = x2" "(raw, rest) = y"
  then have e: "regexExec SORTED_KEYS (lastUnit None (take (lastIndex m) tx)) (drop (lastIndex m) tx)
      = Some (skipped, raw, rest)" by simp
  from detectLoopM_decreases[OF e]
  show "((m\<lparr>lastIndex := lastIndex m + length skipped + length raw\<rparr>, tx), m, tx)
      \<in> measure (\<lambda>(m, tx). length tx - lastIndex m)"
    by simp
next
  fix m :: moduleState and tx x2 skipped y raw rest
  assume "regexExec SORTED_KEYS (lastUnit None (take (lastIndex m) tx)) (drop (lastIndex m) tx) = Some x2"
    "(skipped, y) = x2" "(raw, rest) = y"
  then have e: "regexExec SORTED_KEYS (lastUnit None (take (lastIndex m) tx)) (drop (lastIndex m) tx)
      = Some (skipped, raw, rest)" by simp
  from detectLoopM_decreases[OF e]
  show "((m\<lparr>lastIndex := lastIndex m + length skipped + length raw\<rparr>, tx), m, tx)
      \<in> measure (\<lambda>(m, tx). length tx - lastIndex m)"
    by simp
qed

declare detectLoopM.simps [simp del]

text \<open>\<open>detectTimezone\<close> in its module: \<open>TIMEZONE_REGEX.lastIndex = 0\<close>, then the loop.\<close>

definition detectTimezoneM :: "moduleState \<Rightarrow> jsstring \<Rightarrow> string option \<times> moduleState" where
  "detectTimezoneM m txt = detectLoopM (m\<lparr>lastIndex := 0\<rparr>) txt"

section \<open>The host: Date\<close>

text \<open>
  A \<open>Date\<close> object holds a time value, the milliseconds since the epoch, or \<open>NaN\<close> (the
  Invalid Date, \<open>None\<close>). The calendar is that of ECMAScript (section 21.4.1):
  \<open>Day\<close>, \<open>DaysInYear\<close>, \<open>DayFromYear\<close>, \<open>YearFromTime\<close>, \<open>MonthFromTime\<close>,
  \<open>DateFromTime\<close>, \<open>MakeTime\<close>, \<open>MakeDay\<close>, \<open>MakeDate\<close> and \<open>TimeClip\<close>.
\<close>

type_synonym jsDate = "int option"

definition msPerDay :: int where
  "msPerDay = 86400000"

definition Day :: "int \<Rightarrow> int" where
  "Day t = t div msPerDay"

definition DaysInYear :: "int \<Rightarrow> int" where
  "DaysInYear y =
     (if y mod 4 \<noteq> 0 then 365 else if y mod 100 \<noteq> 0 then 366
      else if y mod 400 \<noteq> 0 then 365 else 366)"

definition DayFromYear :: "int \<Rightarrow> int" where
  "DayFromYear y = 365 * (y - 1970) + (y - 1969) div 4 - (y - 1901) div 100 + (y - 1601) div 400"

text \<open>
  \<open>YearFromTime(t)\<close> is the largest year \<open>y\<close> with \<open>DayFromYear(y) \<le> Day(t)\<close>
  (\<open>YearFromDay_largest\<close> below): the year of the mean length, corrected by one.
\<close>

definition YearFromDay :: "int \<Rightarrow> int" where
  "YearFromDay d =
     (let y = 1970 + (d * 400) div 146097
      in if DayFromYear y > d then y - 1
         else if DayFromYear (y + 1) \<le> d then y + 1
         else y)"

definition YearFromTime :: "int \<Rightarrow> int" where
  "YearFromTime t = YearFromDay (Day t)"

definition InLeapYear :: "int \<Rightarrow> bool" where
  "InLeapYear y = (DaysInYear y = 366)"

text \<open>The day within the year on which month \<open>m\<close> (0 to 11) starts.\<close>

definition monthStart :: "bool \<Rightarrow> int \<Rightarrow> int" where
  "monthStart leap m =
     (if m = 0 then 0 else if m = 1 then 31
      else (if leap then 1 else 0) +
        (if m = 2 then 59 else if m = 3 then 90 else if m = 4 then 120 else if m = 5 then 151
         else if m = 6 then 181 else if m = 7 then 212 else if m = 8 then 243
         else if m = 9 then 273 else if m = 10 then 304 else 334))"

definition MonthFromDay :: "bool \<Rightarrow> int \<Rightarrow> int" where
  "MonthFromDay leap d =
     (if d < monthStart leap 1 then 0 else if d < monthStart leap 2 then 1
      else if d < monthStart leap 3 then 2 else if d < monthStart leap 4 then 3
      else if d < monthStart leap 5 then 4 else if d < monthStart leap 6 then 5
      else if d < monthStart leap 7 then 6 else if d < monthStart leap 8 then 7
      else if d < monthStart leap 9 then 8 else if d < monthStart leap 10 then 9
      else if d < monthStart leap 11 then 10 else 11)"

definition DayWithinYear :: "int \<Rightarrow> int" where
  "DayWithinYear t = Day t - DayFromYear (YearFromTime t)"

definition MonthFromTime :: "int \<Rightarrow> int" where
  "MonthFromTime t = MonthFromDay (InLeapYear (YearFromTime t)) (DayWithinYear t)"

definition DateFromTime :: "int \<Rightarrow> int" where
  "DateFromTime t =
     DayWithinYear t - monthStart (InLeapYear (YearFromTime t)) (MonthFromTime t) + 1"

definition HourFromTime :: "int \<Rightarrow> int" where
  "HourFromTime t = (t div 3600000) mod 24"

definition MinFromTime :: "int \<Rightarrow> int" where
  "MinFromTime t = (t div 60000) mod 60"

definition SecFromTime :: "int \<Rightarrow> int" where
  "SecFromTime t = (t div 1000) mod 60"

definition MakeTime :: "int \<Rightarrow> int \<Rightarrow> int \<Rightarrow> int \<Rightarrow> int" where
  "MakeTime h m s ms = h * 3600000 + m * 60000 + s * 1000 + ms"

definition MakeDay :: "int \<Rightarrow> int \<Rightarrow> int \<Rightarrow> int" where
  "MakeDay y m d =
     (let ym = y + m div 12; mn = m mod 12
      in DayFromYear ym + monthStart (InLeapYear ym) mn + d - 1)"

definition MakeDate :: "int \<Rightarrow> int \<Rightarrow> int" where
  "MakeDate day time = day * msPerDay + time"

definition TimeClip :: "int \<Rightarrow> jsDate" where
  "TimeClip t = (if \<bar>t\<bar> > 8640000000000000 then None else Some t)"

text \<open>
  \<open>Date.UTC\<close> and the \<open>Date\<close> constructor read a year from 0 to 99 as 1900 plus the year.
\<close>

definition fullYear :: "int \<Rightarrow> int" where
  "fullYear y = (if 0 \<le> y \<and> y \<le> 99 then 1900 + y else y)"

definition DateUTC :: "int \<Rightarrow> int \<Rightarrow> int \<Rightarrow> int \<Rightarrow> int \<Rightarrow> int \<Rightarrow> jsDate" where
  "DateUTC y m d h mi s = TimeClip (MakeDate (MakeDay (fullYear y) m d) (MakeTime h mi s 0))"

text \<open>\<open>new Date(value)\<close> for a number: \<open>TimeClip\<close> truncates towards zero.\<close>

definition newDateOfNumber :: "rat \<Rightarrow> jsDate" where
  "newDateOfNumber x =
     (if \<bar>x\<bar> > 8640000000000000 then None
      else Some (if x \<ge> 0 then \<lfloor>x\<rfloor> else \<lceil>x\<rceil>))"

section \<open>The host: zones, Intl and errors\<close>

text \<open>
  Calendar fields as a clock shows them, with the month from 1 to 12.
\<close>

record wallClock =
  wYear :: int
  wMonth :: int
  wDay :: int
  wHour :: int
  wMinute :: int
  wSecond :: int

text \<open>
  What the program can catch: the \<open>RangeError\<close> of \<open>Intl.DateTimeFormat\<close> for a time zone
  the host does not know, its \<open>RangeError\<close> for the Invalid Date, and an exception of the
  expression extractor.
\<close>

datatype error = RangeError_timeZone string | RangeError_timeValue | Thrown jsstring

text \<open>
  The program runs on a host it does not define. The model takes from the host:
  \<^item> \<open>LocalTZA\<close>, the offset of the local zone in milliseconds, for a time value that is
    UTC (\<open>True\<close>) or local (\<open>False\<close>), as in ECMAScript;
  \<^item> \<open>zoneOffset\<close>, the calendar and zone rules provider: for an identifier the host
    knows, the offset from UTC in minutes (positive ahead of UTC) the zone observes at an
    instant; \<open>None\<close> for any other string. Offsets are whole minutes, as the zones of the
    time zone database have them since 1972; for those the division by 60000 in
    \<open>getUtcOffset\<close> and the multiplication in \<open>wallClockToUTC\<close> are exact in double arithmetic;
  \<^item> \<open>hourCycle24\<close>: whether \<open>hour12: false\<close> prints midnight as 24;
  \<^item> \<open>parseOther\<close>: what \<open>new Date(string)\<close> makes of a string that is not in the
    date time string format of ECMAScript (left to the implementation);
  \<^item> \<open>dayPeriodGap\<close>: the space between the time and AM or PM in the locale \<open>en-US\<close>
    (U+0020 or U+202F, by the version of the locale data);
  \<^item> \<open>longZoneName\<close>: the \<open>timeZoneName\<close> part, when the host gives one;
  \<^item> \<open>errorMessage\<close>: the message of an error.
\<close>

record host =
  LocalTZA :: "int \<Rightarrow> bool \<Rightarrow> int"
  zoneOffset :: "string \<Rightarrow> (int \<Rightarrow> int) option"
  hourCycle24 :: bool
  parseOther :: "wallClock \<Rightarrow> jsDate"
  dayPeriodGap :: jsstring
  longZoneName :: "string \<Rightarrow> int \<Rightarrow> jsstring option"
  errorMessage :: "error \<Rightarrow> jsstring"

definition LocalTime :: "host \<Rightarrow> int \<Rightarrow> int" where
  "LocalTime h t = t + LocalTZA h t True"

definition UTCofLocal :: "host \<Rightarrow> int \<Rightarrow> int" where
  "UTCofLocal h t = t - LocalTZA h t False"

text \<open>The getters of a \<open>Date\<close>; \<open>None\<close> is \<open>NaN\<close>.\<close>

definition getFullYear :: "host \<Rightarrow> jsDate \<Rightarrow> int option" where
  "getFullYear h d = map_option (\<lambda>t. YearFromTime (LocalTime h t)) d"

definition getMonth :: "host \<Rightarrow> jsDate \<Rightarrow> int option" where
  "getMonth h d = map_option (\<lambda>t. MonthFromTime (LocalTime h t)) d"

definition getDate :: "host \<Rightarrow> jsDate \<Rightarrow> int option" where
  "getDate h d = map_option (\<lambda>t. DateFromTime (LocalTime h t)) d"




text \<open>\<open>new Date(year, month, day, hour, minute, second)\<close>, in the local zone.\<close>

definition newDate :: "host \<Rightarrow> int option \<Rightarrow> int option \<Rightarrow> int option \<Rightarrow> int \<Rightarrow> int \<Rightarrow> int \<Rightarrow> jsDate" where
  "newDate h y m d hh mi s =
     (case y of None \<Rightarrow> None | Some y' \<Rightarrow>
      case m of None \<Rightarrow> None | Some m' \<Rightarrow>
      case d of None \<Rightarrow> None | Some d' \<Rightarrow>
        TimeClip (UTCofLocal h (MakeDate (MakeDay (fullYear y') m' d') (MakeTime hh mi s 0))))"

text \<open>
  The era of a year is not printed: the parts show the year of the era.
\<close>

definition eraYear :: "int \<Rightarrow> int" where
  "eraYear y = (if y \<le> 0 then 1 - y else y)"

text \<open>
  \<open>new Intl.DateTimeFormat("en-US", {timeZone: tz, ...})\<close> throws for a zone the host does
  not know; \<open>format\<close> and \<open>formatToParts\<close> throw for the Invalid Date. The result is the
  local time value of the instant in the zone.
\<close>

definition zoneLocal :: "host \<Rightarrow> string \<Rightarrow> jsDate \<Rightarrow> error + int" where
  "zoneLocal h tz d =
     (case zoneOffset h tz of
        None \<Rightarrow> Inl (RangeError_timeZone tz)
      | Some off \<Rightarrow>
          (case d of
             None \<Rightarrow> Inl RangeError_timeValue
           | Some t \<Rightarrow> Inr (t + off t * 60000)))"

text \<open>The civil time of an instant in a zone (the rules provider's calendar fields).\<close>

definition civilOf :: "int \<Rightarrow> wallClock" where
  "civilOf l = \<lparr>wYear = YearFromTime l, wMonth = MonthFromTime l + 1, wDay = DateFromTime l,
       wHour = HourFromTime l, wMinute = MinFromTime l, wSecond = SecFromTime l\<rparr>"

definition civilInZone :: "host \<Rightarrow> string \<Rightarrow> jsDate \<Rightarrow> error + wallClock" where
  "civilInZone h tz d =
     (case zoneLocal h tz d of Inl e \<Rightarrow> Inl e | Inr l \<Rightarrow> Inr (civilOf l))"

text \<open>
  The parts \<open>getUtcOffset\<close> asks for (numeric year, two-digit month, day, hour, minute and
  second, \<open>hour12: false\<close>), as numbers.
\<close>

definition formatToParts :: "host \<Rightarrow> string \<Rightarrow> jsDate \<Rightarrow> error + wallClock" where
  "formatToParts h tz d =
     (case zoneLocal h tz d of
        Inl e \<Rightarrow> Inl e
      | Inr l \<Rightarrow> Inr ((civilOf l)
          \<lparr>wYear := eraYear (YearFromTime l),
           wHour := (if hourCycle24 h \<and> HourFromTime l = 0 then 24 else HourFromTime l)\<rparr>))"

text \<open>Decimal digits of a number, and two digits with a leading zero.\<close>

fun decimal :: "nat \<Rightarrow> jsstring" where
  "decimal n = (if n < 10 then [48 + n] else decimal (n div 10) @ [48 + n mod 10])"

declare decimal.simps [simp del]

definition twoDigit :: "nat \<Rightarrow> jsstring" where
  "twoDigit n = (if n < 10 then 48 # decimal n else decimal n)"

definition monthName :: "int \<Rightarrow> jsstring" where
  "monthName m =
     js (if m = 0 then ''January'' else if m = 1 then ''February'' else if m = 2 then ''March''
         else if m = 3 then ''April'' else if m = 4 then ''May'' else if m = 5 then ''June''
         else if m = 6 then ''July'' else if m = 7 then ''August'' else if m = 8 then ''September''
         else if m = 9 then ''October'' else if m = 10 then ''November'' else ''December'')"

text \<open>
  The formatter of \<open>displayDate\<close>, \<open>{month: "long", day: "numeric", year: "numeric"}\<close> in
  \<open>en-US\<close>: \<open>February 18, 2025\<close>.
\<close>

definition displayDateFmt :: "host \<Rightarrow> string \<Rightarrow> jsDate \<Rightarrow> error + jsstring" where
  "displayDateFmt h tz d =
     (case zoneLocal h tz d of
        Inl e \<Rightarrow> Inl e
      | Inr l \<Rightarrow> Inr (monthName (MonthFromTime l) @ js '' '' @ decimal (nat (DateFromTime l))
                  @ js '', '' @ decimal (nat (eraYear (YearFromTime l)))))"

text \<open>
  \<open>startTimeFmt\<close> and \<open>endTimeFmt\<close>, \<open>{hour: "numeric", minute: "2-digit"}\<close> in \<open>en-US\<close>:
  \<open>6:00 AM\<close>.
\<close>

definition startTimeFmt :: "host \<Rightarrow> string \<Rightarrow> jsDate \<Rightarrow> error + jsstring" where
  "startTimeFmt h tz d =
     (case zoneLocal h tz d of
        Inl e \<Rightarrow> Inl e
      | Inr l \<Rightarrow>
          Inr (decimal (nat (if HourFromTime l mod 12 = 0 then 12 else HourFromTime l mod 12))
               @ js '':'' @ twoDigit (nat (MinFromTime l)) @ dayPeriodGap h
               @ js (if HourFromTime l < 12 then ''AM'' else ''PM'')))"

definition endTimeFmt :: "host \<Rightarrow> string \<Rightarrow> jsDate \<Rightarrow> error + jsstring" where
  "endTimeFmt h tz d = startTimeFmt h tz d"

text \<open>
  \<open>displayTZ\<close>: \<open>{timeZoneName: "long"}\<close>, \<open>formatToParts(...).find(...)?.value ?? toTZ\<close>.
\<close>

definition displayTZPart :: "host \<Rightarrow> string \<Rightarrow> jsDate \<Rightarrow> error + jsstring" where
  "displayTZPart h tz d =
     (case zoneLocal h tz d of
        Inl e \<Rightarrow> Inl e
      | Inr l \<Rightarrow>
          (case d of
             None \<Rightarrow> Inl RangeError_timeValue
           | Some t \<Rightarrow> Inr (case longZoneName h tz t of None \<Rightarrow> js tz | Some n \<Rightarrow> n)))"


section \<open>parser.js\<close>

subsection \<open>normalizeForChrono\<close>

text \<open>
  \<open>\s\<close> of a pattern, and what \<open>trim\<close> removes: the white space and line terminators
  of ECMAScript.
\<close>

definition isSpaceUnit :: "nat \<Rightarrow> bool" where
  "isSpaceUnit c =
     ((9 \<le> c \<and> c \<le> 13) \<or> c = 32 \<or> c = 160 \<or> c = 5760 \<or> (8192 \<le> c \<and> c \<le> 8202)
      \<or> c = 8232 \<or> c = 8233 \<or> c = 8239 \<or> c = 8287 \<or> c = 12288 \<or> c = 65279)"

text \<open>\<open>.replace(/[|\<emdash>\<bullet>]/g, ", ")\<close>: the pipe, the em dash (U+2014) and the bullet (U+2022).\<close>

definition replaceSeparators :: "jsstring \<Rightarrow> jsstring" where
  "replaceSeparators s =
     concat (map (\<lambda>c. if c = 124 \<or> c = 8212 \<or> c = 8226 then [44, 32] else [c]) s)"

text \<open>\<open>.replace(/,\s*,/g, ",")\<close>: the scan resumes after the second comma of a match.\<close>

function collapseCommas :: "jsstring \<Rightarrow> jsstring" where
  "collapseCommas [] = []"
| "collapseCommas (c # cs) =
     (if c = 44 then
        (case dropWhile isSpaceUnit cs of
           [] \<Rightarrow> c # collapseCommas cs
         | d # ds \<Rightarrow> if d = 44 then 44 # collapseCommas ds else c # collapseCommas cs)
      else c # collapseCommas cs)"
  by pat_completeness auto
termination
proof (relation "measure length")
  show "wf (measure length)" by simp
next
  fix c :: nat and cs d ds
  assume "dropWhile isSpaceUnit cs = d # ds"
  then have "length (d # ds) \<le> length cs" by (metis length_dropWhile_le)
  then show "(ds, c # cs) \<in> measure length" by simp
qed simp_all

text \<open>\<open>.replace(/\s{2,}/g, " ")\<close>: a run of two or more white space units becomes one space.\<close>

function collapseSpaces :: "jsstring \<Rightarrow> jsstring" where
  "collapseSpaces [] = []"
| "collapseSpaces (c # cs) =
     (if isSpaceUnit c \<and> (case cs of [] \<Rightarrow> False | d # _ \<Rightarrow> isSpaceUnit d)
      then 32 # collapseSpaces (dropWhile isSpaceUnit cs)
      else c # collapseSpaces cs)"
  by pat_completeness auto
termination
proof (relation "measure length")
  show "wf (measure length)" by simp
next
  fix c :: nat and cs
  have "length (dropWhile isSpaceUnit cs) \<le> length cs" by (rule length_dropWhile_le)
  then show "(dropWhile isSpaceUnit cs, c # cs) \<in> measure length" by simp
qed simp_all

definition trim :: "jsstring \<Rightarrow> jsstring" where
  "trim s = rev (dropWhile isSpaceUnit (rev (dropWhile isSpaceUnit s)))"

definition normalizeForChrono :: "jsstring \<Rightarrow> jsstring" where
  "normalizeForChrono tx = trim (collapseSpaces (collapseCommas (replaceSeparators tx)))"

subsection \<open>componentsToWallClock\<close>

text \<open>
  The components of the expression extractor (\<open>components.get(name)\<close>; \<open>None\<close> is
  \<open>null\<close>): whole numbers, the month from 1 to 12, the meridiem 0 for AM and 1 for PM.
\<close>

record components =
  cYear :: "int option"
  cMonth :: "int option"
  cDay :: "int option"
  cHour :: "int option"
  cMinute :: "int option"
  cSecond :: "int option"
  cMeridiem :: "int option"

text \<open>The arguments \<open>componentsToWallClock\<close> gives to the \<open>Date\<close> constructor.\<close>

record dateArgs =
  argYear :: "int option"
  argMonth :: "int option"
  argDay :: "int option"
  argHour :: int
  argMinute :: int
  argSecond :: int

text \<open>
  \<open>ref ?? new Date()\<close>: \<open>ref\<close> is \<open>None\<close> when the caller gives none, and \<open>clock\<close> is the
  time of the call. A getter of the Invalid Date is \<open>NaN\<close>, which \<open>??\<close> keeps.
\<close>

definition wallClockArgs :: "host \<Rightarrow> int \<Rightarrow> components \<Rightarrow> jsDate option \<Rightarrow> dateArgs" where
  "wallClockArgs h clock c ref =
     (let now = (case ref of None \<Rightarrow> Some clock | Some r \<Rightarrow> r);
          year = (case cYear c of Some v \<Rightarrow> Some v | None \<Rightarrow> getFullYear h now);
          month = map_option (\<lambda>m. m - 1)
                    (case cMonth c of Some v \<Rightarrow> Some v | None \<Rightarrow> map_option (\<lambda>m. m + 1) (getMonth h now));
          day = (case cDay c of Some v \<Rightarrow> Some v | None \<Rightarrow> getDate h now);
          hour = (case cHour c of Some v \<Rightarrow> v | None \<Rightarrow> 12);
          minute = (case cMinute c of Some v \<Rightarrow> v | None \<Rightarrow> 0);
          second = (case cSecond c of Some v \<Rightarrow> v | None \<Rightarrow> 0);
          meridiem = cMeridiem c;
          hour1 = (if meridiem = Some 1 \<and> hour < 12 then hour + 12 else hour);
          hour2 = (if meridiem = Some 0 \<and> hour1 = 12 then 0 else hour1)
      in \<lparr>argYear = year, argMonth = month, argDay = day,
          argHour = hour2, argMinute = minute, argSecond = second\<rparr>)"

definition componentsToWallClock :: "host \<Rightarrow> int \<Rightarrow> components \<Rightarrow> jsDate option \<Rightarrow> jsDate" where
  "componentsToWallClock h clock c ref =
     (let a = wallClockArgs h clock c ref
      in newDate h (argYear a) (argMonth a) (argDay a) (argHour a) (argMinute a) (argSecond a))"

subsection \<open>wallClockToUTC and getUtcOffset\<close>

text \<open>The wall-clock components \<open>wallClockToUTC\<close> reads with the getters.\<close>

definition wallClockOf :: "host \<Rightarrow> jsDate \<Rightarrow> wallClock option" where
  "wallClockOf h d = map_option (\<lambda>t. civilOf (LocalTime h t)) d"

text \<open>
  \<open>new Date(isoStr)\<close>. The template pads month, day, hour, minute and second to two
  digits and leaves the year as it prints: the string is in the date time string format
  of ECMAScript exactly when the year has four digits, and is then read as UTC. Any other
  year gives a string whose reading is left to the implementation. The getters of the
  Invalid Date give \<open>NaN-NaN-NaNTNaN:NaN:NaNZ\<close>, which is no date.
\<close>

definition utcEstimateOf :: "host \<Rightarrow> wallClock option \<Rightarrow> jsDate" where
  "utcEstimateOf h w =
     (case w of
        None \<Rightarrow> None
      | Some w \<Rightarrow>
          if 1000 \<le> wYear w \<and> wYear w \<le> 9999
          then TimeClip (MakeDate (MakeDay (wYear w) (wMonth w - 1) (wDay w))
                                  (MakeTime (wHour w) (wMinute w) (wSecond w) 0))
          else parseOther h w)"

text \<open>
  The offset in minutes, a JavaScript number: \<open>None\<close> is \<open>NaN\<close>.
\<close>

definition getUtcOffset :: "host \<Rightarrow> jsDate \<Rightarrow> string \<Rightarrow> error + rat option" where
  "getUtcOffset h utcDate tz =
     (case formatToParts h tz utcDate of
        Inl e \<Rightarrow> Inl e
      | Inr p \<Rightarrow>
          (let hh = (if wHour p = 24 then 0 else wHour p);
               localInTz = DateUTC (wYear p) (wMonth p - 1) (wDay p) hh (wMinute p) (wSecond p)
           in Inr (case (localInTz, utcDate) of
                     (Some l, Some t) \<Rightarrow> Some (of_int (l - t) / 60000)
                   | _ \<Rightarrow> None)))"

definition wallClockToUTC :: "host \<Rightarrow> jsDate \<Rightarrow> string \<Rightarrow> error + jsDate" where
  "wallClockToUTC h parsedDate fromTZ =
     (let utcEstimate = utcEstimateOf h (wallClockOf h parsedDate)
      in case getUtcOffset h utcEstimate fromTZ of
           Inl e \<Rightarrow> Inl e
         | Inr offset \<Rightarrow>
             Inr (case (utcEstimate, offset) of
                    (Some t, Some off) \<Rightarrow> newDateOfNumber (of_int t - off * 60 * 1000)
                  | _ \<Rightarrow> None))"

subsection \<open>parseSelectedText\<close>

record parseResult =
  rStart :: components
  rEnd :: "components option"

record parsedMoment =
  pStart :: jsDate
  pEnd :: "jsDate option"
  hasRange :: bool

text \<open>
  The expression extractor \<open>chrono.parse(text, ref, options)\<close> is a parameter: it returns
  its results (\<open>None\<close> for \<open>null\<close> or \<open>undefined\<close>) or throws. \<open>clock\<close> is the time of the
  call, \<open>new Date()\<close>.
\<close>

definition parseSelectedText ::
  "host \<Rightarrow> (jsstring \<Rightarrow> jsDate \<Rightarrow> error + parseResult list option) \<Rightarrow> int \<Rightarrow> jsstring
     \<Rightarrow> error + parsedMoment option" where
  "parseSelectedText h extract clock tx =
     (let ref = Some clock;
          normalized = normalizeForChrono tx
      in case extract normalized ref of
           Inl e \<Rightarrow> Inl e
         | Inr None \<Rightarrow> Inr None
         | Inr (Some []) \<Rightarrow> Inr None
         | Inr (Some (result # _)) \<Rightarrow>
             (let start = componentsToWallClock h clock (rStart result) (Some ref);
                  end' = (case rEnd result of
                            None \<Rightarrow> None
                          | Some e \<Rightarrow> Some (componentsToWallClock h clock e (Some ref)))
              in Inr (Some \<lparr>pStart = start, pEnd = end', hasRange = (end' \<noteq> None)\<rparr>)))"

subsection \<open>convertParsed\<close>

record converted =
  startUTC :: jsDate
  endUTC :: "jsDate option"
  displayDate :: jsstring
  displayTime :: jsstring
  displayTZ :: jsstring

text \<open>The statements of \<open>convertParsed\<close> in their order; the first exception ends it.\<close>

definition convertParsed :: "host \<Rightarrow> parsedMoment \<Rightarrow> string \<Rightarrow> string \<Rightarrow> error + converted" where
  "convertParsed h parsed fromTZ toTZ =
     (case wallClockToUTC h (pStart parsed) fromTZ of
        Inl e \<Rightarrow> Inl e
      | Inr startU \<Rightarrow>
     (case (case pEnd parsed of
              None \<Rightarrow> Inr None
            | Some e \<Rightarrow> (case wallClockToUTC h e fromTZ of Inl x \<Rightarrow> Inl x | Inr u \<Rightarrow> Inr (Some u))) of
        Inl e \<Rightarrow> Inl e
      | Inr endU \<Rightarrow>
     (case displayDateFmt h toTZ startU of
        Inl e \<Rightarrow> Inl e
      | Inr dateLabel \<Rightarrow>
     (case startTimeFmt h toTZ startU of
        Inl e \<Rightarrow> Inl e
      | Inr startTimeStr \<Rightarrow>
     (case (case endU of
              None \<Rightarrow> Inr None
            | Some u \<Rightarrow> (case endTimeFmt h toTZ u of Inl x \<Rightarrow> Inl x | Inr s \<Rightarrow> Inr (Some s))) of
        Inl e \<Rightarrow> Inl e
      | Inr endTimeStr \<Rightarrow>
     (case displayTZPart h toTZ startU of
        Inl e \<Rightarrow> Inl e
      | Inr zoneLabel \<Rightarrow>
          Inr \<lparr>startUTC = startU, endUTC = endU, displayDate = dateLabel,
               displayTime = (case endTimeStr of
                                None \<Rightarrow> startTimeStr
                              | Some s \<Rightarrow> startTimeStr @ [32, 8211, 32] @ s),
               displayTZ = zoneLabel\<rparr>))))))"

section \<open>dialog.js: updateResult\<close>

text \<open>
  The text of the three result elements and the text the copy button holds
  (\<open>copyBtn.dataset.copyText\<close>, \<open>None\<close> while it is not set).
\<close>

record resultBox =
  resultDate :: jsstring
  resultTime :: jsstring
  resultTZ :: jsstring
  copyText :: "jsstring option"

definition updateResult :: "host \<Rightarrow> resultBox \<Rightarrow> parsedMoment \<Rightarrow> string \<Rightarrow> string \<Rightarrow> resultBox" where
  "updateResult h box parsed from to =
     (case convertParsed h parsed from to of
        Inr conv \<Rightarrow>
          box\<lparr>resultDate := displayDate conv, resultTime := displayTime conv,
              resultTZ := displayTZ conv,
              copyText := Some (displayDate conv @ [10] @ displayTime conv @ [32] @ displayTZ conv)\<rparr>
      | Inl e \<Rightarrow>
          box\<lparr>resultDate := [], resultTime := js ''Conversion error'', resultTZ := errorMessage h e\<rparr>)"

section \<open>A host for the fixtures\<close>

text \<open>
  The rules of the time zone database for 2025: America/New_York is at UTC-5, and at
  UTC-4 from 2025-03-09 07:00 UTC to 2025-11-02 06:00 UTC; America/Los_Angeles is at
  UTC-8, and at UTC-7 from 2025-03-09 10:00 UTC to 2025-11-02 09:00 UTC; UTC and GMT
  are at offset 0. \<open>host2025\<close> knows these four zones and runs in the zone UTC.
\<close>

definition rules2025 :: "string \<Rightarrow> (int \<Rightarrow> int) option" where
  "rules2025 z =
     (if z = ''America/New_York''
      then Some (\<lambda>t. if 1741503600000 \<le> t \<and> t < 1762063200000 then - 240 else - 300)
      else if z = ''America/Los_Angeles''
      then Some (\<lambda>t. if 1741514400000 \<le> t \<and> t < 1762074000000 then - 420 else - 480)
      else if z = ''UTC'' \<or> z = ''GMT'' then Some (\<lambda>t. 0)
      else None)"

definition host2025 :: host where
  "host2025 = \<lparr>LocalTZA = (\<lambda>t u. 0), zoneOffset = rules2025, hourCycle24 = False,
       parseOther = (\<lambda>w. None), dayPeriodGap = js '' '', longZoneName = (\<lambda>z t. None),
       errorMessage = (\<lambda>e. [])\<rparr>"

section \<open>The sorted keys as a list\<close>

lemma map_if_skip:
  "w \<notin> set vs \<Longrightarrow> map (\<lambda>v. if w = v then h v else g v) vs = map g vs"
  by (induction vs) auto

lemma mset_concat_pick:
  "distinct vs \<Longrightarrow> w \<in> set vs \<Longrightarrow>
     mset (concat (map (\<lambda>v. if w = v then a # g v else g v) vs)) = add_mset a (mset (concat (map g vs)))"
  by (induction vs) (auto simp: map_if_skip)

lemma mset_concat_filter:
  "distinct vs \<Longrightarrow> f ` set xs \<subseteq> set vs \<Longrightarrow>
     mset (concat (map (\<lambda>v. filter (\<lambda>x. f x = v) xs) vs)) = mset xs"
proof (induction xs)
  case Nil
  then show ?case by (induction vs) auto
next
  case (Cons a xs)
  have "(\<lambda>v. filter (\<lambda>x. f x = v) (a # xs)) = (\<lambda>v. if f a = v then a # filter (\<lambda>x. f x = v) xs else filter (\<lambda>x. f x = v) xs)"
    by auto
  with Cons show ?case by (simp add: mset_concat_pick)
qed

lemma concat_pick:
  "distinct vs \<Longrightarrow> w \<in> set vs \<Longrightarrow> concat (map (\<lambda>v. if v = w then L else []) vs) = L"
  by (induction vs) auto

lemma sorted_map_filter_const:
  "sorted (map f (filter (\<lambda>x. f x = a) xs))"
  by (induction xs) auto

lemma sorted_concat_filter:
  "sorted vs \<Longrightarrow> sorted (map f (concat (map (\<lambda>v. filter (\<lambda>x. f x = v) xs) vs)))"
  by (induction vs) (auto simp: sorted_append sorted_map_filter_const)

lemma sort_key_concat_filter:
  fixes f :: "'a \<Rightarrow> 'b::linorder"
  assumes "sorted vs" "distinct vs" "f ` set xs \<subseteq> set vs"
  shows "sort_key f xs = concat (map (\<lambda>v. filter (\<lambda>x. f x = v) xs) vs)"
proof (rule properties_for_sort_key)
  show "mset (concat (map (\<lambda>v. filter (\<lambda>x. f x = v) xs) vs)) = mset xs"
    using assms by (simp add: mset_concat_filter)
  show "sorted (map f (concat (map (\<lambda>v. filter (\<lambda>x. f x = v) xs) vs)))"
    using assms by (simp add: sorted_concat_filter)
  fix k assume "k \<in> set (concat (map (\<lambda>v. filter (\<lambda>x. f x = v) xs) vs))"
  then have k: "f k \<in> set vs" using assms(3) by auto
  have "filter (\<lambda>x. f k = f x) (concat (map (\<lambda>v. filter (\<lambda>x. f x = v) xs) vs))
      = concat (map (\<lambda>v. if v = f k then filter (\<lambda>x. f k = f x) xs else []) vs)"
    by (auto simp: filter_concat comp_def intro!: arg_cong[where f=concat] filter_cong)
  also have "\<dots> = filter (\<lambda>x. f k = f x) xs"
    by (rule concat_pick[OF assms(2) k])
  finally show "filter (\<lambda>x. f k = f x) (concat (map (\<lambda>v. filter (\<lambda>x. f x = v) xs) vs)) = filter (\<lambda>x. f k = f x) xs" .
qed

text \<open>The same with the keys computed once: the list is paired with its keys first.\<close>

lemma sort_key_buckets:
  fixes f :: "'a \<Rightarrow> 'b::linorder"
  assumes "sorted vs" "distinct vs" "map (\<lambda>x. (f x, x)) xs = ps" "list_all (\<lambda>p. fst p \<in> set vs) ps"
  shows "sort_key f xs = concat (map (\<lambda>v. map snd (filter (\<lambda>p. fst p = v) ps)) vs)"
proof -
  have sub: "f ` set xs \<subseteq> set vs"
    using assms(3,4) by (auto simp: list_all_iff)
  have "map snd (filter (\<lambda>p. fst p = v) ps) = filter (\<lambda>x. f x = v) xs" for v
    unfolding assms(3)[symmetric] by (induction xs) auto
  with sort_key_concat_filter[OF assms(1,2) sub] show ?thesis by simp
qed

lemma inj_js: "inj js"
  unfolding js_def by (intro injI) (metis inj_of_char list.inj_map_strong injD)

lemma keep_first_distinct: "distinct xs \<Longrightarrow> rev (remdups (rev xs)) = xs"
  by (simp add: distinct_remdups_id)

lemma mapKeys_distinct:
  assumes "distinct (map fst es)" "inj g"
  shows "mapKeys (map (\<lambda>(k, v). (g k, v)) es) = map g (map fst es)"
proof -
  have m: "map fst (map (\<lambda>(k, v). (g k, v)) es) = map g (map fst es)" by (induction es) auto
  have "distinct (map g (map fst es))"
    using assms by (simp add: distinct_map inj_on_def inj_def)
  from keep_first_distinct[OF this] show ?thesis by (simp only: mapKeys_def m)
qed

lemma distinct_cong0: "distinct xs = distinct xs" by (rule refl)
lemma list_all_cong0: "list_all P xs = list_all P xs" by (rule refl)
lemma notin_Cons: "list_all (\<lambda>y. x \<noteq> y) (y # ys) = (x \<noteq> y \<and> list_all (\<lambda>y. x \<noteq> y) ys)" by simp
lemma distinct_Cons_eval: "distinct (x # xs) = (list_all (\<lambda>y. x \<noteq> y) xs \<and> distinct xs)"
  by (auto simp: list_all_iff)

lemma entries_distinct: "distinct (map fst TIMEZONE_ENTRIES)"
  unfolding TIMEZONE_ENTRIES_def
  apply (simp only: list.map fst_conv)
  apply (simp only: distinct_Cons_eval list.pred_inject list.inject list.distinct char.inject simp_thms distinct.simps(1) cong: distinct_cong0 list_all_cong0)
  done

lemma mapKeys_TIMEZONE_MAP: "mapKeys TIMEZONE_MAP = map js (map fst TIMEZONE_ENTRIES)"
  unfolding TIMEZONE_MAP_def by (rule mapKeys_distinct[OF entries_distinct inj_js])

lemma map_cong0: "map f xs = map f xs" by (rule refl)
lemma filter_cong0: "filter P xs = filter P xs" by (rule refl)
lemma concat_cong0: "concat xs = concat xs" by (rule refl)

lemma sort_key_buckets_let:
  fixes f :: "'a \<Rightarrow> 'b::linorder"
  assumes "sorted vs" "distinct vs"
    and "let ps = map (\<lambda>x. (f x, x)) xs
         in list_all (\<lambda>p. fst p \<in> set vs) ps \<and>
            concat (map (\<lambda>v. map snd (filter (\<lambda>p. fst p = v) ps)) vs) = ys"
  shows "sort_key f xs = ys"
  using sort_key_buckets[OF assms(1,2) refl, of f xs] assms(3) by (simp add: Let_def)

lemma SORTED_KEYS_units: "SORTED_KEYS = [
    [65, 117, 115, 116, 114, 97, 108, 105, 97, 110, 32, 69, 97, 115, 116, 101, 114, 110, 32, 83, 116, 97, 110, 100, 97, 114, 100, 32, 84, 105, 109, 101],
    [65, 117, 115, 116, 114, 97, 108, 105, 97, 110, 32, 69, 97, 115, 116, 101, 114, 110, 32, 68, 97, 121, 108, 105, 103, 104, 116, 32, 84, 105, 109, 101],
    [65, 117, 115, 116, 114, 97, 108, 105, 97, 110, 32, 87, 101, 115, 116, 101, 114, 110, 32, 83, 116, 97, 110, 100, 97, 114, 100, 32, 84, 105, 109, 101],
    [67, 101, 110, 116, 114, 97, 108, 32, 69, 117, 114, 111, 112, 101, 97, 110, 32, 83, 117, 109, 109, 101, 114, 32, 84, 105, 109, 101],
    [87, 101, 115, 116, 101, 114, 110, 32, 69, 117, 114, 111, 112, 101, 97, 110, 32, 83, 117, 109, 109, 101, 114, 32, 84, 105, 109, 101],
    [69, 97, 115, 116, 101, 114, 110, 32, 69, 117, 114, 111, 112, 101, 97, 110, 32, 83, 117, 109, 109, 101, 114, 32, 84, 105, 109, 101],
    [78, 101, 119, 32, 90, 101, 97, 108, 97, 110, 100, 32, 83, 116, 97, 110, 100, 97, 114, 100, 32, 84, 105, 109, 101],
    [78, 101, 119, 32, 90, 101, 97, 108, 97, 110, 100, 32, 68, 97, 121, 108, 105, 103, 104, 116, 32, 84, 105, 109, 101],
    [65, 117, 115, 116, 114, 97, 108, 105, 97, 110, 32, 69, 97, 115, 116, 101, 114, 110, 32, 84, 105, 109, 101],
    [65, 117, 115, 116, 114, 97, 108, 105, 97, 110, 32, 67, 101, 110, 116, 114, 97, 108, 32, 84, 105, 109, 101],
    [65, 117, 115, 116, 114, 97, 108, 105, 97, 110, 32, 87, 101, 115, 116, 101, 114, 110, 32, 84, 105, 109, 101],
    [77, 111, 117, 110, 116, 97, 105, 110, 32, 83, 116, 97, 110, 100, 97, 114, 100, 32, 84, 105, 109, 101],
    [77, 111, 117, 110, 116, 97, 105, 110, 32, 68, 97, 121, 108, 105, 103, 104, 116, 32, 84, 105, 109, 101],
    [65, 116, 108, 97, 110, 116, 105, 99, 32, 83, 116, 97, 110, 100, 97, 114, 100, 32, 84, 105, 109, 101],
    [65, 116, 108, 97, 110, 116, 105, 99, 32, 68, 97, 121, 108, 105, 103, 104, 116, 32, 84, 105, 109, 101],
    [69, 97, 115, 116, 101, 114, 110, 32, 83, 116, 97, 110, 100, 97, 114, 100, 32, 84, 105, 109, 101],
    [69, 97, 115, 116, 101, 114, 110, 32, 68, 97, 121, 108, 105, 103, 104, 116, 32, 84, 105, 109, 101],
    [67, 101, 110, 116, 114, 97, 108, 32, 83, 116, 97, 110, 100, 97, 114, 100, 32, 84, 105, 109, 101],
    [67, 101, 110, 116, 114, 97, 108, 32, 68, 97, 121, 108, 105, 103, 104, 116, 32, 84, 105, 109, 101],
    [80, 97, 99, 105, 102, 105, 99, 32, 83, 116, 97, 110, 100, 97, 114, 100, 32, 84, 105, 109, 101],
    [80, 97, 99, 105, 102, 105, 99, 32, 68, 97, 121, 108, 105, 103, 104, 116, 32, 84, 105, 109, 101],
    [67, 101, 110, 116, 114, 97, 108, 32, 69, 117, 114, 111, 112, 101, 97, 110, 32, 84, 105, 109, 101],
    [87, 101, 115, 116, 101, 114, 110, 32, 69, 117, 114, 111, 112, 101, 97, 110, 32, 84, 105, 109, 101],
    [69, 97, 115, 116, 101, 114, 110, 32, 69, 117, 114, 111, 112, 101, 97, 110, 32, 84, 105, 109, 101],
    [65, 108, 97, 115, 107, 97, 32, 83, 116, 97, 110, 100, 97, 114, 100, 32, 84, 105, 109, 101],
    [65, 108, 97, 115, 107, 97, 32, 68, 97, 121, 108, 105, 103, 104, 116, 32, 84, 105, 109, 101],
    [72, 97, 119, 97, 105, 105, 32, 83, 116, 97, 110, 100, 97, 114, 100, 32, 84, 105, 109, 101],
    [73, 110, 100, 105, 97, 110, 32, 83, 116, 97, 110, 100, 97, 114, 100, 32, 84, 105, 109, 101],
    [66, 114, 105, 116, 105, 115, 104, 32, 83, 117, 109, 109, 101, 114, 32, 84, 105, 109, 101],
    [74, 97, 112, 97, 110, 32, 83, 116, 97, 110, 100, 97, 114, 100, 32, 84, 105, 109, 101],
    [75, 111, 114, 101, 97, 32, 83, 116, 97, 110, 100, 97, 114, 100, 32, 84, 105, 109, 101],
    [67, 104, 105, 110, 97, 32, 83, 116, 97, 110, 100, 97, 114, 100, 32, 84, 105, 109, 101],
    [83, 105, 110, 103, 97, 112, 111, 114, 101, 32, 84, 105, 109, 101],
    [77, 111, 117, 110, 116, 97, 105, 110, 32, 84, 105, 109, 101],
    [65, 116, 108, 97, 110, 116, 105, 99, 32, 84, 105, 109, 101],
    [69, 97, 115, 116, 101, 114, 110, 32, 84, 105, 109, 101],
    [67, 101, 110, 116, 114, 97, 108, 32, 84, 105, 109, 101],
    [80, 97, 99, 105, 102, 105, 99, 32, 84, 105, 109, 101],
    [65, 108, 97, 115, 107, 97, 32, 84, 105, 109, 101],
    [72, 97, 119, 97, 105, 105, 32, 84, 105, 109, 101],
    [78, 101, 119, 32, 90, 101, 97, 108, 97, 110, 100],
    [83, 105, 110, 103, 97, 112, 111, 114, 101],
    [72, 111, 110, 103, 32, 75, 111, 110, 103],
    [73, 110, 100, 111, 99, 104, 105, 110, 97],
    [65, 114, 103, 101, 110, 116, 105, 110, 97],
    [77, 111, 117, 110, 116, 97, 105, 110],
    [65, 116, 108, 97, 110, 116, 105, 99],
    [80, 97, 107, 105, 115, 116, 97, 110],
    [66, 114, 97, 115, 105, 108, 105, 97],
    [69, 97, 115, 116, 101, 114, 110],
    [67, 101, 110, 116, 114, 97, 108],
    [80, 97, 99, 105, 102, 105, 99],
    [66, 114, 105, 116, 105, 115, 104],
    [65, 108, 97, 115, 107, 97],
    [72, 97, 119, 97, 105, 105],
    [66, 114, 97, 122, 105, 108],
    [73, 110, 100, 105, 97],
    [74, 97, 112, 97, 110],
    [75, 111, 114, 101, 97],
    [67, 83, 84, 43, 56],
    [67, 104, 105, 110, 97],
    [65, 75, 83, 84],
    [65, 75, 68, 84],
    [67, 69, 83, 84],
    [87, 69, 83, 84],
    [69, 69, 83, 84],
    [65, 69, 83, 84],
    [65, 69, 68, 84],
    [65, 67, 83, 84],
    [65, 67, 68, 84],
    [65, 87, 83, 84],
    [78, 90, 83, 84],
    [78, 90, 68, 84],
    [69, 83, 84],
    [69, 68, 84],
    [67, 83, 84],
    [67, 68, 84],
    [77, 83, 84],
    [77, 68, 84],
    [80, 83, 84],
    [80, 68, 84],
    [65, 75, 84],
    [72, 83, 84],
    [65, 83, 84],
    [65, 68, 84],
    [85, 84, 67],
    [71, 77, 84],
    [67, 69, 84],
    [66, 83, 84],
    [87, 69, 84],
    [69, 69, 84],
    [73, 83, 84],
    [74, 83, 84],
    [75, 83, 84],
    [83, 71, 84],
    [72, 75, 84],
    [73, 67, 84],
    [80, 75, 84],
    [66, 82, 84],
    [65, 82, 84],
    [69, 84],
    [67, 84],
    [77, 84],
    [80, 84],
    [72, 84],
    [65, 84]
  ]"
  unfolding SORTED_KEYS_def mapKeys_TIMEZONE_MAP
  apply (rule sort_key_buckets_let[where vs = "[-32,-28,-25,-23,-22,-21,-20,-19,-14,-13,-12,-11,-9,-8,-7,-6,-5,-4,-3,-2]"])
    apply simp
   apply simp
  unfolding TIMEZONE_ENTRIES_def
  apply (simp only: list.map fst_conv)
  apply (simp add: js_def Let_def cong: filter_cong0 list_all_cong0)
  done

section \<open>Evaluation\<close>

lemma matchAt_cong0: "matchAt keys prev tx = matchAt keys prev tx" by (rule refl)
lemma regexExec_cong0: "regexExec keys prev tx = regexExec keys prev tx" by (rule refl)
lemma findKey_cong0: "lc = lc' \<Longrightarrow> findKey keys lc = findKey keys lc'" by simp
lemma map_of_cong0: "map_of es k = map_of es k" by (rule refl)

lemma matchAt_no_boundary: "\<not> wordBoundary prev (firstUnit tx) \<Longrightarrow> matchAt keys prev tx = None"
  by (induction keys) (auto simp: matchAlternative_def)

lemma matchAt_gate:
  "matchAt keys prev tx = (if wordBoundary prev (firstUnit tx) then matchAt keys prev tx else None)"
  by (simp add: matchAt_no_boundary)

lemma matchAt_step:
  "matchAt ((k # ks) # keys) prev (c # cs) =
     (if upperUnit k = upperUnit c
      then (case matchAlternative prev (c # cs) (k # ks) of Some m \<Rightarrow> Some m | None \<Rightarrow> matchAt keys prev (c # cs))
      else matchAt keys prev (c # cs))"
  by (simp add: matchAlternative_def canonicalize_def)

lemma matchAt_end: "matchAt ((k # ks) # keys) prev [] = matchAt keys prev []"
  by (simp add: matchAlternative_def)

lemma findKey_step:
  "findKey ((k # ks) # keys) (c # cs) =
     (if lowerUnit k = c
      then (if toLowerCase ks = cs then Some (k # ks) else findKey keys (c # cs))
      else findKey keys (c # cs))"
  by (auto simp: toLowerCase_def)

lemma map_of_js_step:
  "map_of (map (\<lambda>(s, v). (js s, v)) ((s, v) # es)) k =
     (if js s = k then Some v else map_of (map (\<lambda>(s, v). (js s, v)) es) k)"
  by simp

lemma mapGet_distinct:
  assumes "distinct (map fst es)"
  shows "mapGet es k = map_of es k"
proof -
  have d: "distinct (map fst (rev es))" using assms by (simp add: rev_map[symmetric])
  show ?thesis
  proof (cases "map_of es k")
    case None
    then have "map_of (rev es) k = None" by (simp add: map_of_eq_None_iff)
    with None show ?thesis by (simp add: mapGet_def)
  next
    case (Some v)
    then have "(k, v) \<in> set (rev es)" by (auto dest: map_of_SomeD)
    with d have "map_of (rev es) k = Some v" by (rule map_of_is_SomeI)
    with Some show ?thesis by (simp add: mapGet_def)
  qed
qed

lemma TIMEZONE_MAP_distinct: "distinct (map fst TIMEZONE_MAP)"
proof -
  have "map fst (map (\<lambda>(k, v). (js k, v)) es) = map js (map fst es)" for es :: "(string \<times> string) list"
    by (induction es) auto
  then have "map fst TIMEZONE_MAP = map js (map fst TIMEZONE_ENTRIES)"
    unfolding TIMEZONE_MAP_def .
  then show ?thesis using entries_distinct inj_js by (simp add: distinct_map inj_on_def inj_def)
qed

lemma mapGet_TIMEZONE_MAP:
  "mapGet TIMEZONE_MAP k = map_of (map (\<lambda>(s, v). (js s, v)) TIMEZONE_ENTRIES) k"
  using mapGet_distinct[OF TIMEZONE_MAP_distinct] by (simp add: TIMEZONE_MAP_def)

lemmas matchAt_SORTED =
  trans[OF matchAt_gate[of SORTED_KEYS prev tx]
    arg_cong[where f = "\<lambda>keys. if wordBoundary prev (firstUnit tx) then matchAt keys prev tx else None",
      OF SORTED_KEYS_units]] for prev tx
lemmas findKey_SORTED = arg_cong[where f = "\<lambda>keys. findKey keys lc" for lc, OF SORTED_KEYS_units]
lemmas mapGet_entries = mapGet_TIMEZONE_MAP[unfolded TIMEZONE_ENTRIES_def]

lemmas detect_eval =
  detectTimezone_def matchAt_SORTED findKey_SORTED mapGet_entries
  matchAt_step matchAt_end findKey_step map_of_js_step
  matchAlternative_def wordBoundary_def firstUnit_def lastUnit_def isWordChar_def canonicalize_def
  upperUnit_def lowerUnit_def toUpperCase_def toLowerCase_def isFalsePositive_def js_def


section \<open>Facts about the scan\<close>

lemma SORTED_KEYS_sorted: "sorted (map (\<lambda>k. - int (length k)) SORTED_KEYS)"
  by (simp add: SORTED_KEYS_def)

lemma matchAt_longest:
  assumes "sorted (map (\<lambda>k. - int (length k)) keys)"
    and "matchAt keys prev tx = Some (raw, rest)"
    and "key \<in> set keys"
    and "matchAlternative prev tx key = Some (raw', rest')"
  shows "length raw' \<le> length raw"
  using assms
proof (induction keys)
  case Nil
  then show ?case by simp
next
  case (Cons k ks)
  have len': "length raw' = length key"
    using Cons.prems(4) matchAlternative_Some matchLiteral_Some by blast
  show ?case
  proof (cases "matchAlternative prev tx k")
    case None
    with Cons.prems(3,4) have "key \<in> set ks" by auto
    moreover from None Cons.prems(2) have "matchAt ks prev tx = Some (raw, rest)" by simp
    moreover from Cons.prems(1) have "sorted (map (\<lambda>k. - int (length k)) ks)" by simp
    ultimately show ?thesis using Cons.IH Cons.prems(4) by blast
  next
    case (Some m)
    with Cons.prems(2) have "matchAlternative prev tx k = Some (raw, rest)" by simp
    then have "length raw = length k"
      using matchAlternative_Some matchLiteral_Some by blast
    moreover from Cons.prems(1,3) have "length key \<le> length k" by auto
    ultimately show ?thesis using len' by simp
  qed
qed

lemma lastUnit_append: "lastUnit prev (a @ b) = lastUnit (lastUnit prev a) b"
  by (simp add: lastUnit_def)

lemma findKey_Some: "findKey keys lc = Some key \<Longrightarrow> key \<in> set keys \<and> toLowerCase key = lc"
  by (induction keys) (auto split: if_splits)

lemma isWordChar_canonicalize: "canonicalize a = canonicalize b \<Longrightarrow> isWordChar a = isWordChar b"
  by (auto simp: canonicalize_def upperUnit_def isWordChar_def split: if_splits)

lemma ascii_canonicalize: "canonicalize a = canonicalize b \<Longrightarrow> b < 128 \<Longrightarrow> a < 128"
  by (auto simp: canonicalize_def upperUnit_def split: if_splits)

lemma keys_wordy: "list_all (\<lambda>k. isWordChar (hd k) \<and> isWordChar (last k)) SORTED_KEYS"
  unfolding SORTED_KEYS_units
  by (simp add: isWordChar_def cong: list_all_cong0)

lemma keys_ascii: "list_all (list_all (\<lambda>c. c < 128)) SORTED_KEYS"
  unfolding SORTED_KEYS_units
  by (simp cong: list_all_cong0)

text \<open>A match is a whole word: it starts and ends with a word character, and no word
  character stands before or after it.\<close>

lemma alternative_whole_word:
  assumes key: "key \<in> set SORTED_KEYS"
    and m: "matchAlternative prev tx key = Some (raw, rest)"
  shows "tx = raw @ rest \<and> raw \<noteq> [] \<and> isWordChar (hd raw) \<and> isWordChar (last raw)
     \<and> (case prev of None \<Rightarrow> True | Some c \<Rightarrow> \<not> isWordChar c)
     \<and> (case firstUnit rest of None \<Rightarrow> True | Some c \<Rightarrow> \<not> isWordChar c)
     \<and> list_all (\<lambda>c. c < 128) raw
     \<and> map canonicalize raw = map canonicalize key"
proof -
  from matchAlternative_Some[OF m] have lit: "matchLiteral key tx = Some (raw, rest)"
    and b1: "wordBoundary prev (firstUnit tx)"
    and b2: "wordBoundary (lastUnit prev raw) (firstUnit rest)" by simp_all
  from matchLiteral_Some[OF lit] have tx: "tx = raw @ rest" and len: "length raw = length key"
    and canon: "map canonicalize raw = map canonicalize key" by simp_all
  from key keys_nonempty have kne: "key \<noteq> []" by auto
  with len have rne: "raw \<noteq> []" by auto
  from key keys_wordy have kw: "isWordChar (hd key)" "isWordChar (last key)"
    by (auto simp: list_all_iff)
  from canon rne kne have "canonicalize (hd raw) = canonicalize (hd key)"
    by (metis hd_map)
  with kw(1) have w1: "isWordChar (hd raw)" using isWordChar_canonicalize by blast
  from canon rne kne have "canonicalize (last raw) = canonicalize (last key)"
    by (metis last_map)
  with kw(2) have w2: "isWordChar (last raw)" using isWordChar_canonicalize by blast
  from b1 w1 rne tx have p: "case prev of None \<Rightarrow> True | Some c \<Rightarrow> \<not> isWordChar c"
    by (cases raw; cases prev) (auto simp: wordBoundary_def firstUnit_def)
  from b2 w2 rne have q: "case firstUnit rest of None \<Rightarrow> True | Some c \<Rightarrow> \<not> isWordChar c"
    by (cases "firstUnit rest") (auto simp: wordBoundary_def lastUnit_def)
  from key keys_ascii have ka: "list_all (\<lambda>c. c < 128) key" by (auto simp: list_all_iff)
  have "list_all (\<lambda>c. c < 128) raw"
    unfolding list_all_length
  proof (intro allI impI)
    fix n assume n: "n < length raw"
    with canon have "canonicalize (raw ! n) = canonicalize (key ! n)"
      by (metis len nth_map)
    moreover from ka n len have "key ! n < 128" by (simp add: list_all_length)
    ultimately show "raw ! n < 128" using ascii_canonicalize by blast
  qed
  with tx rne w1 w2 p q canon show ?thesis by blast
qed

text \<open>The text a key has matched consists of ASCII code units.\<close>

lemma raw_ascii:
  assumes "matchAt SORTED_KEYS prev tx = Some (raw, rest)"
  shows "list_all (\<lambda>c. c < 128) raw"
proof -
  from matchAt_Some[OF assms] obtain key where "key \<in> set SORTED_KEYS"
    and "matchAlternative prev tx key = Some (raw, rest)" by blast
  from alternative_whole_word[OF this] show ?thesis by blast
qed

section \<open>Facts about the loop\<close>

lemma detectLoop_step:
  assumes "regexExec SORTED_KEYS prev tx = Some (skipped, raw, rest)"
    and "isFalsePositive raw \<or> findKey SORTED_KEYS (toLowerCase raw) = None"
  shows "detectLoop prev tx = detectLoop (lastUnit prev (skipped @ raw)) rest"
  using assms by (subst detectLoop.simps) (auto simp del: detectLoop.simps)

lemma detectLoop_stop:
  assumes "regexExec SORTED_KEYS prev tx = Some (skipped, raw, rest)"
    and "\<not> isFalsePositive raw" and "findKey SORTED_KEYS (toLowerCase raw) = Some key"
  shows "detectLoop prev tx = mapGet TIMEZONE_MAP key"
  using assms by (subst detectLoop.simps) (simp del: detectLoop.simps)

lemma detectLoop_end:
  assumes "regexExec SORTED_KEYS prev tx = None"
  shows "detectLoop prev tx = None"
  using assms by (subst detectLoop.simps) (simp del: detectLoop.simps)

lemma canon_lower: "(canonicalize a = canonicalize b) = (lowerUnit a = lowerUnit b)"
  by (auto simp: canonicalize_def upperUnit_def lowerUnit_def split: if_splits)

lemma canon_lower_map: "(map canonicalize a = map canonicalize b) = (toLowerCase a = toLowerCase b)"
  unfolding toLowerCase_def
proof (induction a arbitrary: b)
  case Nil
  then show ?case by auto
next
  case (Cons x xs)
  then show ?case by (cases b) (auto simp: canon_lower)
qed

lemma matchLiteral_complete:
  "map canonicalize key = map canonicalize raw \<Longrightarrow> matchLiteral key (raw @ rest) = Some (raw, rest)"
proof (induction key arbitrary: raw)
  case Nil
  then show ?case by simp
next
  case (Cons k ks)
  then show ?case by (cases raw) auto
qed

lemma matchAlternative_same:
  assumes "matchAlternative prev (raw @ rest) key = Some (raw, rest)"
    and "map canonicalize key' = map canonicalize raw"
  shows "matchAlternative prev (raw @ rest) key' = Some (raw, rest)"
  using matchAlternative_Some[OF assms(1)] matchLiteral_complete[OF assms(2), of rest]
  by (simp add: matchAlternative_def)

lemma findKey_complete:
  "key \<in> set keys \<Longrightarrow> toLowerCase key = lc \<Longrightarrow> \<exists>key'. findKey keys lc = Some key'"
  by (induction keys) auto

lemma mapGet_key:
  assumes "key \<in> set SORTED_KEYS"
  shows "\<exists>z. mapGet TIMEZONE_MAP key = Some z"
proof -
  from assms have "key \<in> fst ` set (map (\<lambda>(s, v). (js s, v)) TIMEZONE_ENTRIES)"
    by (force simp: set_SORTED_KEYS)
  then have "map_of (map (\<lambda>(s, v). (js s, v)) TIMEZONE_ENTRIES) key \<noteq> None"
    by (simp only: map_of_eq_None_iff not_not)
  then show ?thesis by (simp add: mapGet_TIMEZONE_MAP)
qed

text \<open>A candidate that is no false positive ends the loop: a key with its lower case
  exists, it matches at the position of the candidate, and the table has a zone for it.\<close>

lemma detectLoop_accepts:
  assumes ex: "regexExec SORTED_KEYS prev tx = Some (skipped, raw, rest)"
    and fp: "\<not> isFalsePositive raw"
  shows "\<exists>key z. findKey SORTED_KEYS (toLowerCase raw) = Some key
     \<and> key \<in> set SORTED_KEYS
     \<and> matchAlternative (lastUnit prev skipped) (raw @ rest) key = Some (raw, rest)
     \<and> mapGet TIMEZONE_MAP key = Some z
     \<and> detectLoop prev tx = Some z"
proof -
  from regexExec_matchAt[OF ex] have
    m: "matchAt SORTED_KEYS (lastUnit prev skipped) (raw @ rest) = Some (raw, rest)" by simp
  from matchAt_Some[OF m] obtain k where k: "k \<in> set SORTED_KEYS"
    and mk: "matchAlternative (lastUnit prev skipped) (raw @ rest) k = Some (raw, rest)" by blast
  from matchAlternative_Some[OF mk] matchLiteral_Some
  have "map canonicalize raw = map canonicalize k" by blast
  then have "toLowerCase k = toLowerCase raw" by (simp add: canon_lower_map)
  from findKey_complete[OF k this] obtain key where
    f: "findKey SORTED_KEYS (toLowerCase raw) = Some key" by blast
  from findKey_Some[OF f] have key: "key \<in> set SORTED_KEYS"
    and lc: "toLowerCase key = toLowerCase raw" by simp_all
  from lc have "map canonicalize key = map canonicalize raw" by (simp add: canon_lower_map)
  from matchAlternative_same[OF mk this]
  have mkey: "matchAlternative (lastUnit prev skipped) (raw @ rest) key = Some (raw, rest)" .
  from mapGet_key[OF key] obtain z where z: "mapGet TIMEZONE_MAP key = Some z" by blast
  from detectLoop_stop[OF ex fp f] z have "detectLoop prev tx = Some z" by simp
  with f key mkey z show ?thesis by blast
qed

text \<open>What the loop answers is the zone of an accepted candidate, and the candidates
  before it were false positives.\<close>

lemma detectLoop_Some_key:
  "detectLoop prev tx = Some z \<Longrightarrow>
     \<exists>pre raw post key. tx = pre @ raw @ post
       \<and> matchAt SORTED_KEYS (lastUnit prev pre) (raw @ post) = Some (raw, post)
       \<and> \<not> isFalsePositive raw
       \<and> findKey SORTED_KEYS (toLowerCase raw) = Some key
       \<and> mapGet TIMEZONE_MAP key = Some z"
proof (induction prev tx rule: detectLoop.induct)
  case (1 prev tx)
  from "1.prems" obtain skipped raw rest where
    ex: "regexExec SORTED_KEYS prev tx = Some (skipped, raw, rest)"
    by (subst (asm) detectLoop.simps) (auto split: option.splits)
  note m = regexExec_matchAt[OF ex]
  have resume: ?case if r: "detectLoop (lastUnit prev (skipped @ raw)) rest = Some z"
    and ih: "detectLoop (lastUnit prev (skipped @ raw)) rest = Some z \<Longrightarrow>
       \<exists>pre raw' post key. rest = pre @ raw' @ post
       \<and> matchAt SORTED_KEYS (lastUnit (lastUnit prev (skipped @ raw)) pre) (raw' @ post) = Some (raw', post)
       \<and> \<not> isFalsePositive raw'
       \<and> findKey SORTED_KEYS (toLowerCase raw') = Some key
       \<and> mapGet TIMEZONE_MAP key = Some z"
  proof -
    from ih[OF r] obtain pre raw' post key where
      p: "rest = pre @ raw' @ post"
      "matchAt SORTED_KEYS (lastUnit (lastUnit prev (skipped @ raw)) pre) (raw' @ post) = Some (raw', post)"
      "\<not> isFalsePositive raw'" "findKey SORTED_KEYS (toLowerCase raw') = Some key"
      "mapGet TIMEZONE_MAP key = Some z"
      by blast
    have "tx = (skipped @ raw @ pre) @ raw' @ post" using m p(1) by simp
    moreover have "lastUnit prev (skipped @ raw @ pre) = lastUnit (lastUnit prev (skipped @ raw)) pre"
      using lastUnit_append[of prev "skipped @ raw" pre] by simp
    ultimately show ?thesis using p by metis
  qed
  show ?case
  proof (cases "isFalsePositive raw")
    case True
    with "1.prems" ex have "detectLoop (lastUnit prev (skipped @ raw)) rest = Some z"
      by (subst (asm) detectLoop.simps) simp
    then show ?thesis using "1.IH"(1)[OF ex refl refl True] resume by blast
  next
    case False
    show ?thesis
    proof (cases "findKey SORTED_KEYS (toLowerCase raw)")
      case None
      with "1.prems" ex False have "detectLoop (lastUnit prev (skipped @ raw)) rest = Some z"
        by (subst (asm) detectLoop.simps) simp
      then show ?thesis using "1.IH"(2)[OF ex refl refl False None] resume by blast
    next
      case (Some key)
      with "1.prems" ex False have "mapGet TIMEZONE_MAP key = Some z"
        by (subst (asm) detectLoop.simps) simp
      with m False Some show ?thesis by blast
    qed
  qed
qed

text \<open>The zone answered, with the alias it is the value of: the first key equal to the
  candidate up to case, one of the alternatives that match at the candidate's position, and
  no alternative matches more there.\<close>

lemma detectLoop_Some_longest:
  assumes "detectLoop prev tx = Some z"
  shows "\<exists>pre raw post key. tx = pre @ raw @ post
       \<and> \<not> isFalsePositive raw
       \<and> key \<in> set SORTED_KEYS
       \<and> findKey SORTED_KEYS (toLowerCase raw) = Some key
       \<and> matchAlternative (lastUnit prev pre) (raw @ post) key = Some (raw, post)
       \<and> mapGet TIMEZONE_MAP key = Some z
       \<and> (\<forall>key' \<in> set SORTED_KEYS. \<forall>raw' rest'.
             matchAlternative (lastUnit prev pre) (raw @ post) key' = Some (raw', rest')
             \<longrightarrow> length raw' \<le> length raw)"
proof -
  from detectLoop_Some_key[OF assms] obtain pre raw post key where
    tx: "tx = pre @ raw @ post"
    and m: "matchAt SORTED_KEYS (lastUnit prev pre) (raw @ post) = Some (raw, post)"
    and fp: "\<not> isFalsePositive raw"
    and f: "findKey SORTED_KEYS (toLowerCase raw) = Some key"
    and z: "mapGet TIMEZONE_MAP key = Some z" by blast
  from findKey_Some[OF f] have key: "key \<in> set SORTED_KEYS"
    and lc: "toLowerCase key = toLowerCase raw" by simp_all
  from matchAt_Some[OF m] obtain k where
    mk: "matchAlternative (lastUnit prev pre) (raw @ post) k = Some (raw, post)" by blast
  from lc have "map canonicalize key = map canonicalize raw" by (simp add: canon_lower_map)
  from matchAlternative_same[OF mk this]
  have mkey: "matchAlternative (lastUnit prev pre) (raw @ post) key = Some (raw, post)" .
  have "length raw' \<le> length raw"
    if "key' \<in> set SORTED_KEYS"
      "matchAlternative (lastUnit prev pre) (raw @ post) key' = Some (raw', rest')"
    for key' raw' rest'
    using matchAt_longest[OF SORTED_KEYS_sorted m that] .
  with tx fp key f mkey z show ?thesis by blast
qed





subsection \<open>The loop in its module\<close>

lemma detectLoopM_step:
  assumes "regexExec SORTED_KEYS (lastUnit None (take (lastIndex m) tx)) (drop (lastIndex m) tx)
      = Some (skipped, raw, rest)"
    and "isFalsePositive raw \<or> findKey SORTED_KEYS (toLowerCase raw) = None"
  shows "detectLoopM m tx = detectLoopM (m\<lparr>lastIndex := lastIndex m + length skipped + length raw\<rparr>) tx"
  using assms by (subst detectLoopM.simps) auto

lemma detectLoopM_stop:
  assumes "regexExec SORTED_KEYS (lastUnit None (take (lastIndex m) tx)) (drop (lastIndex m) tx)
      = Some (skipped, raw, rest)"
    and "\<not> isFalsePositive raw" and "findKey SORTED_KEYS (toLowerCase raw) = Some key"
  shows "detectLoopM m tx =
     (mapGet (tzMap m) key, m\<lparr>lastIndex := lastIndex m + length skipped + length raw\<rparr>)"
  using assms by (subst detectLoopM.simps) simp

lemma detectLoopM_end:
  assumes "regexExec SORTED_KEYS (lastUnit None (take (lastIndex m) tx)) (drop (lastIndex m) tx) = None"
  shows "detectLoopM m tx = (None, m\<lparr>lastIndex := 0\<rparr>)"
  using assms by (subst detectLoopM.simps) simp

lemma detectLoopM_table: "tzMap (snd (detectLoopM m tx)) = tzMap m"
proof (induction m tx rule: detectLoopM.induct)
  case (1 m tx)
  let ?prev = "lastUnit None (take (lastIndex m) tx)"
  let ?rest = "drop (lastIndex m) tx"
  show ?case
  proof (cases "regexExec SORTED_KEYS ?prev ?rest")
    case None
    then show ?thesis by (simp add: detectLoopM_end)
  next
    case (Some r)
    obtain skipped raw rest where r: "r = (skipped, raw, rest)" by (cases r) auto
    with Some have e: "regexExec SORTED_KEYS ?prev ?rest = Some (skipped, raw, rest)" by simp
    let ?m' = "m\<lparr>lastIndex := lastIndex m + length skipped + length raw\<rparr>"
    show ?thesis
    proof (cases "isFalsePositive raw")
      case True
      from "1.IH"(1)[OF e refl refl True] detectLoopM_step[OF e disjI1[OF True]]
      show ?thesis by simp
    next
      case False
      show ?thesis
      proof (cases "findKey SORTED_KEYS (toLowerCase raw)")
        case None
        from "1.IH"(2)[OF e refl refl False None] detectLoopM_step[OF e disjI2[OF None]]
        show ?thesis by simp
      next
        case (Some key)
        from detectLoopM_stop[OF e False Some] show ?thesis by simp
      qed
    qed
  qed
qed

lemma drop_resume:
  assumes "drop i tx = skipped @ raw @ rest"
  shows "take (i + length skipped + length raw) tx = take i tx @ skipped @ raw
     \<and> drop (i + length skipped + length raw) tx = rest"
proof -
  have "drop (length skipped + length raw) (drop i tx) = rest" using assms by simp
  then have a: "drop (i + length skipped + length raw) tx = rest"
    by (simp add: add.commute add.left_commute)
  have "take (i + (length skipped + length raw)) tx
      = take i tx @ take (length skipped + length raw) (drop i tx)" by (rule take_add)
  also have "take (length skipped + length raw) (drop i tx) = skipped @ raw"
    unfolding assms by simp
  finally have "take (i + length skipped + length raw) tx = take i tx @ skipped @ raw"
    by (simp add: add.assoc)
  with a show ?thesis by simp
qed

lemma detectLoopM_result:
  "tzMap m = TIMEZONE_MAP \<Longrightarrow>
     fst (detectLoopM m tx) = detectLoop (lastUnit None (take (lastIndex m) tx)) (drop (lastIndex m) tx)"
proof (induction m tx rule: detectLoopM.induct)
  case (1 m tx)
  let ?prev = "lastUnit None (take (lastIndex m) tx)"
  let ?rest = "drop (lastIndex m) tx"
  show ?case
  proof (cases "regexExec SORTED_KEYS ?prev ?rest")
    case None
    then show ?thesis by (simp add: detectLoopM_end detectLoop_end del: detectLoop.simps)
  next
    case (Some r)
    obtain skipped raw rest where r: "r = (skipped, raw, rest)" by (cases r) auto
    with Some have e: "regexExec SORTED_KEYS ?prev ?rest = Some (skipped, raw, rest)" by simp
    from regexExec_matchAt[OF e] have d: "?rest = skipped @ raw @ rest" by simp
    let ?m' = "m\<lparr>lastIndex := lastIndex m + length skipped + length raw\<rparr>"
    from drop_resume[OF d] have
      t: "take (lastIndex ?m') tx = take (lastIndex m) tx @ skipped @ raw"
      and dr: "drop (lastIndex ?m') tx = rest" by simp_all
    have p: "lastUnit None (take (lastIndex ?m') tx) = lastUnit ?prev (skipped @ raw)"
      unfolding t using lastUnit_append[of None "take (lastIndex m) tx" "skipped @ raw"] by simp
    have tz: "tzMap ?m' = TIMEZONE_MAP" using "1.prems" by simp
    show ?thesis
    proof (cases "isFalsePositive raw")
      case True
      have "fst (detectLoopM m tx) = fst (detectLoopM ?m' tx)"
        using detectLoopM_step[OF e disjI1[OF True]] by simp
      also have "\<dots> = detectLoop (lastUnit ?prev (skipped @ raw)) rest"
        using "1.IH"(1)[OF e refl refl True tz] unfolding p dr .
      also have "\<dots> = detectLoop ?prev ?rest"
        using detectLoop_step[OF e disjI1[OF True]] by (rule sym)
      finally show ?thesis .
    next
      case False
      show ?thesis
      proof (cases "findKey SORTED_KEYS (toLowerCase raw)")
        case None
        have "fst (detectLoopM m tx) = fst (detectLoopM ?m' tx)"
          using detectLoopM_step[OF e disjI2[OF None]] by simp
        also have "\<dots> = detectLoop (lastUnit ?prev (skipped @ raw)) rest"
          using "1.IH"(2)[OF e refl refl False None tz] unfolding p dr .
        also have "\<dots> = detectLoop ?prev ?rest"
          using detectLoop_step[OF e disjI2[OF None]] by (rule sym)
        finally show ?thesis .
      next
        case (Some key)
        from detectLoopM_stop[OF e False Some] detectLoop_stop[OF e False Some] "1.prems"
        show ?thesis by (simp del: detectLoop.simps)
      qed
    qed
  qed
qed

lemma detectTimezoneM_result:
  "tzMap m = TIMEZONE_MAP \<Longrightarrow> fst (detectTimezoneM m tx) = detectTimezone tx"
  using detectLoopM_result[of "m\<lparr>lastIndex := 0\<rparr>" tx]
  by (simp add: detectTimezoneM_def detectTimezone_def lastUnit_def del: detectLoop.simps)

lemma mapGet_in: "mapGet es key = Some z \<Longrightarrow> (key, z) \<in> set es"
  by (auto simp: mapGet_def dest: map_of_SomeD)

lemma detectLoopM_value:
  "fst (detectLoopM m tx) = Some z \<Longrightarrow> \<exists>key. mapGet (tzMap m) key = Some z"
proof (induction m tx rule: detectLoopM.induct)
  case (1 m tx)
  let ?prev = "lastUnit None (take (lastIndex m) tx)"
  let ?rest = "drop (lastIndex m) tx"
  show ?case
  proof (cases "regexExec SORTED_KEYS ?prev ?rest")
    case None
    with "1.prems" show ?thesis by (simp add: detectLoopM_end)
  next
    case (Some r)
    obtain skipped raw rest where r: "r = (skipped, raw, rest)" by (cases r) auto
    with Some have e: "regexExec SORTED_KEYS ?prev ?rest = Some (skipped, raw, rest)" by simp
    let ?m' = "m\<lparr>lastIndex := lastIndex m + length skipped + length raw\<rparr>"
    show ?thesis
    proof (cases "isFalsePositive raw")
      case True
      from "1.prems" detectLoopM_step[OF e disjI1[OF True]]
      have "fst (detectLoopM ?m' tx) = Some z" by simp
      from "1.IH"(1)[OF e refl refl True this] show ?thesis by simp
    next
      case False
      show ?thesis
      proof (cases "findKey SORTED_KEYS (toLowerCase raw)")
        case None
        from "1.prems" detectLoopM_step[OF e disjI2[OF None]]
        have "fst (detectLoopM ?m' tx) = Some z" by simp
        from "1.IH"(2)[OF e refl refl False None this] show ?thesis by simp
      next
        case (Some key)
        from detectLoopM_stop[OF e False Some] "1.prems" show ?thesis by auto
      qed
    qed
  qed
qed

lemma detectTimezoneM_table: "tzMap (snd (detectTimezoneM m tx)) = tzMap m"
  using detectLoopM_table[of "m\<lparr>lastIndex := 0\<rparr>" tx] by (simp add: detectTimezoneM_def)

lemma detectTimezoneM_value:
  assumes "fst (detectTimezoneM m tx) = Some z"
  shows "z \<in> snd ` set (tzMap m)"
proof -
  from assms detectLoopM_value[of "m\<lparr>lastIndex := 0\<rparr>" tx z]
  obtain key where "mapGet (tzMap m) key = Some z" by (auto simp: detectTimezoneM_def)
  from mapGet_in[OF this] show ?thesis by force
qed

lemma lower_js_Cons:
  "(toLowerCase (js (a # s)) = toLowerCase (js (b # z))) =
     (if lowerUnit (of_char a) = lowerUnit (of_char b)
      then toLowerCase (js s) = toLowerCase (js z) else False)"
  by (simp add: toLowerCase_def js_def)

lemma lower_js_Nil:
  "(toLowerCase (js []) = toLowerCase (js (b # z))) = False"
  "(toLowerCase (js (a # s)) = toLowerCase (js [])) = False"
  "(toLowerCase (js []) = toLowerCase (js [])) = True"
  by (simp_all add: toLowerCase_def js_def)

text \<open>The entries whose zone is the alias itself, up to case: UTC and GMT.\<close>

lemma table_self:
  "list_all (\<lambda>e. toLowerCase (js (fst e)) = toLowerCase (js (snd e)) \<longrightarrow>
      snd e = ''UTC'' \<or> snd e = ''GMT'') TIMEZONE_ENTRIES"
  unfolding TIMEZONE_ENTRIES_def
  by (simp add: lower_js_Cons lower_js_Nil lowerUnit_def cong: list_all_cong0)

lemma mapGet_entry:
  assumes "mapGet TIMEZONE_MAP key = Some z"
  shows "\<exists>als. (als, z) \<in> set TIMEZONE_ENTRIES \<and> key = js als"
proof -
  from mapGet_in[OF assms] show ?thesis by (auto simp: TIMEZONE_MAP_def)
qed

lemma detect_table_value:
  assumes "detectTimezone tx = Some z"
  shows "\<exists>pre raw post key. tx = pre @ raw @ post
           \<and> matchAt SORTED_KEYS (lastUnit None pre) (raw @ post) = Some (raw, post)
           \<and> key \<in> set (mapKeys TIMEZONE_MAP)
           \<and> toLowerCase key = toLowerCase raw
           \<and> mapGet TIMEZONE_MAP key = Some z
           \<and> (js z = raw \<longrightarrow> z = ''UTC'' \<or> z = ''GMT'')"
proof -
  from assms detectLoop_Some_key[of None tx z] obtain pre raw post key where
    tx: "tx = pre @ raw @ post"
    and m: "matchAt SORTED_KEYS (lastUnit None pre) (raw @ post) = Some (raw, post)"
    and f: "findKey SORTED_KEYS (toLowerCase raw) = Some key"
    and g: "mapGet TIMEZONE_MAP key = Some z"
    unfolding detectTimezone_def by blast
  from findKey_Some[OF f] have key: "key \<in> set SORTED_KEYS"
    and lc: "toLowerCase key = toLowerCase raw" by simp_all
  from mapGet_entry[OF g] obtain als where a: "(als, z) \<in> set TIMEZONE_ENTRIES" "key = js als"
    by blast
  have "z = ''UTC'' \<or> z = ''GMT''" if "js z = raw"
  proof -
    from that lc a(2) have "toLowerCase (js als) = toLowerCase (js z)" by simp
    with a(1) table_self show ?thesis by (auto simp: list_all_iff)
  qed
  moreover from key have "key \<in> set (mapKeys TIMEZONE_MAP)" by (simp add: SORTED_KEYS_def)
  ultimately show ?thesis using tx m lc g by blast
qed

section \<open>Evaluated scans\<close>

lemma regexExec_tx_cong: "tx = tx' \<Longrightarrow> regexExec keys prev tx = regexExec keys prev tx'"
  by simp

lemma eval_et_lower_scan:
  "regexExec SORTED_KEYS None (js ''see you et five'') = Some (js ''see you '', js ''et'', js '' five'')"
  by (simp add: detect_eval del: matchAt.simps(2) findKey.simps(2)
      cong: matchAt_cong0 regexExec_tx_cong findKey_cong0 map_of_cong0)

lemma eval_et_lower: "detectTimezone (js ''see you et five'') = None"
  by (simp add: detect_eval del: matchAt.simps(2) findKey.simps(2)
      cong: matchAt_cong0 regexExec_tx_cong findKey_cong0 map_of_cong0)

lemma eval_et_upper: "detectTimezone (js ''see you ET five'') = Some ''America/New_York''"
  by (simp add: detect_eval del: matchAt.simps(2) findKey.simps(2)
      cong: matchAt_cong0 regexExec_tx_cong findKey_cong0 map_of_cong0)

lemma eval_eastern_scan:
  "regexExec SORTED_KEYS None (js ''noon Eastern Standard Time'') =
     Some (js ''noon '', js ''Eastern Standard Time'', [])"
  by (simp add: detect_eval del: matchAt.simps(2) findKey.simps(2)
      cong: matchAt_cong0 regexExec_tx_cong findKey_cong0 map_of_cong0)

lemma eval_eastern: "detectTimezone (js ''noon Eastern Standard Time'') = Some ''America/New_York''"
  by (simp add: detect_eval del: matchAt.simps(2) findKey.simps(2)
      cong: matchAt_cong0 regexExec_tx_cong findKey_cong0 map_of_cong0)

lemma eval_cst8: "detectTimezone (js ''9am CST+8'') = Some ''Asia/Shanghai''"
  by (simp add: detect_eval del: matchAt.simps(2) findKey.simps(2)
      cong: matchAt_cong0 regexExec_tx_cong findKey_cong0 map_of_cong0)

lemma eval_cst: "detectTimezone (js ''9am CST'') = Some ''America/Chicago''"
  by (simp add: detect_eval del: matchAt.simps(2) findKey.simps(2)
      cong: matchAt_cong0 regexExec_tx_cong findKey_cong0 map_of_cong0)



lemma eval_est: "detectTimezone (js ''3pm EST'') = Some ''America/New_York''"
  by (simp add: detect_eval del: matchAt.simps(2) findKey.simps(2)
      cong: matchAt_cong0 regexExec_tx_cong findKey_cong0 map_of_cong0)

lemma eval_at_scan:
  "regexExec SORTED_KEYS None (js ''AT noon Eastern European Time'') =
     Some ([], js ''AT'', js '' noon Eastern European Time'')"
  by (simp add: detect_eval del: matchAt.simps(2) findKey.simps(2)
      cong: matchAt_cong0 regexExec_tx_cong findKey_cong0 map_of_cong0)

lemma eval_at: "detectTimezone (js ''AT noon Eastern European Time'') = Some ''America/Halifax''"
  by (simp add: detect_eval del: matchAt.simps(2) findKey.simps(2)
      cong: matchAt_cong0 regexExec_tx_cong findKey_cong0 map_of_cong0)

lemma eval_eet_scan:
  "regexExec SORTED_KEYS (Some 84) (js '' noon Eastern European Time'') =
     Some (js '' noon '', js ''Eastern European Time'', [])"
  by (simp add: detect_eval del: matchAt.simps(2) findKey.simps(2)
      cong: matchAt_cong0 regexExec_tx_cong findKey_cong0 map_of_cong0)

lemma eval_eet: "detectTimezone (js ''noon Eastern European Time'') = Some ''Europe/Helsinki''"
  by (simp add: detect_eval del: matchAt.simps(2) findKey.simps(2)
      cong: matchAt_cong0 regexExec_tx_cong findKey_cong0 map_of_cong0)

lemma eval_eet_lower: "detectTimezone (js ''noon eastern european time'') = Some ''Europe/Helsinki''"
  by (simp add: detect_eval del: matchAt.simps(2) findKey.simps(2)
      cong: matchAt_cong0 regexExec_tx_cong findKey_cong0 map_of_cong0)

lemma eval_cst8_lower_scan:
  "regexExec SORTED_KEYS None (js ''9am cst+8'') = Some (js ''9am '', js ''cst+8'', [])"
  by (simp add: detect_eval del: matchAt.simps(2) findKey.simps(2)
      cong: matchAt_cong0 regexExec_tx_cong findKey_cong0 map_of_cong0)

lemma eval_cst8_lower: "detectTimezone (js ''9am cst+8'') = None"
  by (simp add: detect_eval del: matchAt.simps(2) findKey.simps(2)
      cong: matchAt_cong0 regexExec_tx_cong findKey_cong0 map_of_cong0)








lemma eval_est_scan: "regexExec SORTED_KEYS None (js ''3pm EST'') = Some (js ''3pm '', js ''EST'', [])"
  by (simp add: detect_eval del: matchAt.simps(2) findKey.simps(2)
      cong: matchAt_cong0 regexExec_tx_cong findKey_cong0 map_of_cong0)

lemma eval_est_find: "findKey SORTED_KEYS (toLowerCase (js ''EST'')) = Some (js ''EST'')"
  by (simp add: detect_eval del: matchAt.simps(2) findKey.simps(2)
      cong: matchAt_cong0 regexExec_tx_cong findKey_cong0 map_of_cong0)

lemma eval_est_state:
  "snd (detectTimezoneM \<lparr>tzMap = TIMEZONE_MAP, lastIndex = 5\<rparr> (js ''3pm EST''))
     = \<lparr>tzMap = TIMEZONE_MAP, lastIndex = 7\<rparr>"
proof -
  have fp: "\<not> isFalsePositive (js ''EST'')"
    by (simp add: isFalsePositive_def js_def toUpperCase_def upperUnit_def)
  have "regexExec SORTED_KEYS
      (lastUnit None (take (lastIndex \<lparr>tzMap = TIMEZONE_MAP, lastIndex = 0\<rparr>) (js ''3pm EST'')))
      (drop (lastIndex \<lparr>tzMap = TIMEZONE_MAP, lastIndex = 0\<rparr>) (js ''3pm EST''))
     = Some (js ''3pm '', js ''EST'', [])"
    using eval_est_scan by (simp add: lastUnit_def)
  from detectLoopM_stop[OF this fp eval_est_find] show ?thesis
    by (simp add: detectTimezoneM_def js_def)
qed

section \<open>The timezone identifier: claims\<close>

text \<open>
  C4. A scanned candidate of at most five code units, without a space, that is not its own
  upper case is a false positive: the loop skips it and resumes the scan after it. The
  lower-case \<open>et\<close> in a sentence is scanned and skipped and the text yields no zone;
  the same text with \<open>ET\<close> yields America/New_York.
\<close>

theorem short_lowercase_rejected:
  "(regexExec SORTED_KEYS prev tx = Some (skipped, raw, rest) \<longrightarrow>
      length raw \<le> 5 \<longrightarrow> 32 \<notin> set raw \<longrightarrow> raw \<noteq> toUpperCase raw \<longrightarrow>
      isFalsePositive raw \<and>
      detectLoop prev tx = detectLoop (lastUnit prev (skipped @ raw)) rest)
   \<and> regexExec SORTED_KEYS None (js ''see you et five'') = Some (js ''see you '', js ''et'', js '' five'')
   \<and> detectTimezone (js ''see you et five'') = None
   \<and> detectTimezone (js ''see you ET five'') = Some ''America/New_York''"
proof -
  have "isFalsePositive raw \<and> detectLoop prev tx = detectLoop (lastUnit prev (skipped @ raw)) rest"
    if "regexExec SORTED_KEYS prev tx = Some (skipped, raw, rest)"
      "length raw \<le> 5" "32 \<notin> set raw" "raw \<noteq> toUpperCase raw"
  proof -
    from that(2-4) have fp: "isFalsePositive raw" by (simp add: isFalsePositive_def)
    with that(1) show ?thesis by (subst detectLoop.simps) simp
  qed
  with eval_et_lower_scan eval_et_lower eval_et_upper show ?thesis by blast
qed

theorem short_lowercase_rejected_witness:
  "regexExec SORTED_KEYS None (js ''see you et five'') = Some (js ''see you '', js ''et'', js '' five'')
   \<and> length (js ''et'') \<le> 5 \<and> 32 \<notin> set (js ''et'') \<and> js ''et'' \<noteq> toUpperCase (js ''et'')
   \<and> isFalsePositive (js ''et'')
   \<and> detectLoop None (js ''see you et five'') = detectLoop (Some 116) (js '' five'')"
proof -
  have a: "length (js ''et'') \<le> 5" "32 \<notin> set (js ''et'')" "js ''et'' \<noteq> toUpperCase (js ''et'')"
    by (simp_all add: js_def toUpperCase_def upperUnit_def)
  have l: "lastUnit None (js ''see you '' @ js ''et'') = Some 116"
    by (simp add: lastUnit_def js_def)
  from short_lowercase_rejected[of None "js ''see you et five''" "js ''see you ''" "js ''et''" "js '' five''"]
    eval_et_lower_scan a
  have "isFalsePositive (js ''et'') \<and>
      detectLoop None (js ''see you et five'') = detectLoop (lastUnit None (js ''see you '' @ js ''et'')) (js '' five'')"
    by blast
  with eval_et_lower_scan a l show ?thesis by simp
qed

text \<open>
  C5, as the code has it. The identifier answers at the first scanned candidate that is
  no false positive, and \<open>null\<close> if there is none. Every candidate is the longest alias
  that matches at its position; an accepted candidate resolves to the zone the table gives
  the key that is equal to it up to case, and that key is one of the alternatives matching
  there with the whole candidate. So where several aliases of different lengths overlap at
  the position of the accepted candidate, the zone is the one of the longest:
  \<open>Eastern Standard Time\<close> resolves via the full phrase and \<open>CST+8\<close> gives
  Asia/Shanghai, \<open>eastern european time\<close> gives Europe/Helsinki although \<open>Eastern\<close>
  alone is America/New_York.
\<close>

theorem longest_alias_wins:
  "detectTimezone tx = detectLoop None tx
   \<and> (regexExec SORTED_KEYS prev tx = None \<longrightarrow> detectLoop prev tx = None)
   \<and> (regexExec SORTED_KEYS prev tx = Some (skipped, raw, rest) \<longrightarrow>
        (\<forall>key' \<in> set SORTED_KEYS. \<forall>raw' rest'.
            matchAlternative (lastUnit prev skipped) (raw @ rest) key' = Some (raw', rest')
            \<longrightarrow> length raw' \<le> length raw)
        \<and> (isFalsePositive raw \<longrightarrow>
              detectLoop prev tx = detectLoop (lastUnit prev (skipped @ raw)) rest)
        \<and> (\<not> isFalsePositive raw \<longrightarrow>
              (\<exists>key zone. key \<in> set SORTED_KEYS
                 \<and> findKey SORTED_KEYS (toLowerCase raw) = Some key
                 \<and> matchAlternative (lastUnit prev skipped) (raw @ rest) key = Some (raw, rest)
                 \<and> mapGet TIMEZONE_MAP key = Some zone
                 \<and> detectLoop prev tx = Some zone)))
   \<and> (detectTimezone tx = Some z \<longrightarrow>
        (\<exists>pre cand post key. tx = pre @ cand @ post
           \<and> \<not> isFalsePositive cand
           \<and> key \<in> set SORTED_KEYS
           \<and> findKey SORTED_KEYS (toLowerCase cand) = Some key
           \<and> matchAlternative (lastUnit None pre) (cand @ post) key = Some (cand, post)
           \<and> mapGet TIMEZONE_MAP key = Some z
           \<and> (\<forall>key' \<in> set SORTED_KEYS. \<forall>raw' rest'.
                 matchAlternative (lastUnit None pre) (cand @ post) key' = Some (raw', rest')
                 \<longrightarrow> length raw' \<le> length cand)))
   \<and> regexExec SORTED_KEYS None (js ''noon Eastern Standard Time'') =
         Some (js ''noon '', js ''Eastern Standard Time'', [])
   \<and> detectTimezone (js ''noon Eastern Standard Time'') = Some ''America/New_York''
   \<and> detectTimezone (js ''9am CST+8'') = Some ''Asia/Shanghai''
   \<and> detectTimezone (js ''9am CST'') = Some ''America/Chicago''
   \<and> detectTimezone (js ''noon eastern european time'') = Some ''Europe/Helsinki''"
proof -
  have a: "detectTimezone tx = detectLoop None tx" by (simp add: detectTimezone_def)
  have b: "regexExec SORTED_KEYS prev tx = None \<longrightarrow> detectLoop prev tx = None"
    using detectLoop_end by blast
  have c: "regexExec SORTED_KEYS prev tx = Some (skipped, raw, rest) \<longrightarrow>
        (\<forall>key' \<in> set SORTED_KEYS. \<forall>raw' rest'.
            matchAlternative (lastUnit prev skipped) (raw @ rest) key' = Some (raw', rest')
            \<longrightarrow> length raw' \<le> length raw)
        \<and> (isFalsePositive raw \<longrightarrow>
              detectLoop prev tx = detectLoop (lastUnit prev (skipped @ raw)) rest)
        \<and> (\<not> isFalsePositive raw \<longrightarrow>
              (\<exists>key zone. key \<in> set SORTED_KEYS
                 \<and> findKey SORTED_KEYS (toLowerCase raw) = Some key
                 \<and> matchAlternative (lastUnit prev skipped) (raw @ rest) key = Some (raw, rest)
                 \<and> mapGet TIMEZONE_MAP key = Some zone
                 \<and> detectLoop prev tx = Some zone))"
  proof
    assume ex: "regexExec SORTED_KEYS prev tx = Some (skipped, raw, rest)"
    from regexExec_matchAt[OF ex] have
      m: "matchAt SORTED_KEYS (lastUnit prev skipped) (raw @ rest) = Some (raw, rest)" by simp
    have "\<forall>key' \<in> set SORTED_KEYS. \<forall>raw' rest'.
            matchAlternative (lastUnit prev skipped) (raw @ rest) key' = Some (raw', rest')
            \<longrightarrow> length raw' \<le> length raw"
      using matchAt_longest[OF SORTED_KEYS_sorted m] by blast
    moreover have "isFalsePositive raw \<longrightarrow>
              detectLoop prev tx = detectLoop (lastUnit prev (skipped @ raw)) rest"
      using detectLoop_step[OF ex] by blast
    moreover have "\<not> isFalsePositive raw \<longrightarrow>
              (\<exists>key zone. key \<in> set SORTED_KEYS
                 \<and> findKey SORTED_KEYS (toLowerCase raw) = Some key
                 \<and> matchAlternative (lastUnit prev skipped) (raw @ rest) key = Some (raw, rest)
                 \<and> mapGet TIMEZONE_MAP key = Some zone
                 \<and> detectLoop prev tx = Some zone)"
      using detectLoop_accepts[OF ex] by blast
    ultimately show "(\<forall>key' \<in> set SORTED_KEYS. \<forall>raw' rest'.
            matchAlternative (lastUnit prev skipped) (raw @ rest) key' = Some (raw', rest')
            \<longrightarrow> length raw' \<le> length raw)
        \<and> (isFalsePositive raw \<longrightarrow>
              detectLoop prev tx = detectLoop (lastUnit prev (skipped @ raw)) rest)
        \<and> (\<not> isFalsePositive raw \<longrightarrow>
              (\<exists>key zone. key \<in> set SORTED_KEYS
                 \<and> findKey SORTED_KEYS (toLowerCase raw) = Some key
                 \<and> matchAlternative (lastUnit prev skipped) (raw @ rest) key = Some (raw, rest)
                 \<and> mapGet TIMEZONE_MAP key = Some zone
                 \<and> detectLoop prev tx = Some zone))"
      by (intro conjI)
  qed
  have d: "detectTimezone tx = Some z \<longrightarrow>
        (\<exists>pre cand post key. tx = pre @ cand @ post
           \<and> \<not> isFalsePositive cand
           \<and> key \<in> set SORTED_KEYS
           \<and> findKey SORTED_KEYS (toLowerCase cand) = Some key
           \<and> matchAlternative (lastUnit None pre) (cand @ post) key = Some (cand, post)
           \<and> mapGet TIMEZONE_MAP key = Some z
           \<and> (\<forall>key' \<in> set SORTED_KEYS. \<forall>raw' rest'.
                 matchAlternative (lastUnit None pre) (cand @ post) key' = Some (raw', rest')
                 \<longrightarrow> length raw' \<le> length cand))"
    using detectLoop_Some_longest[of None tx z] unfolding detectTimezone_def by (intro impI)
  from a b c d eval_eastern_scan eval_eastern eval_cst8 eval_cst eval_eet_lower
  show ?thesis by (intro conjI)
qed

theorem longest_alias_wins_witness:
  "regexExec SORTED_KEYS None (js ''noon Eastern Standard Time'') =
         Some (js ''noon '', js ''Eastern Standard Time'', [])
   \<and> \<not> isFalsePositive (js ''Eastern Standard Time'')
   \<and> js ''Eastern'' \<in> set SORTED_KEYS
   \<and> matchAlternative (Some 32) (js ''Eastern Standard Time'') (js ''Eastern'') =
         Some (js ''Eastern'', js '' Standard Time'')
   \<and> length (js ''Eastern'') \<le> length (js ''Eastern Standard Time'')
   \<and> (\<exists>key zone. key \<in> set SORTED_KEYS
         \<and> findKey SORTED_KEYS (toLowerCase (js ''Eastern Standard Time'')) = Some key
         \<and> matchAlternative (Some 32) (js ''Eastern Standard Time'') key =
              Some (js ''Eastern Standard Time'', [])
         \<and> mapGet TIMEZONE_MAP key = Some zone
         \<and> detectLoop None (js ''noon Eastern Standard Time'') = Some zone)"
proof -
  have k: "js ''Eastern'' \<in> set SORTED_KEYS"
    unfolding set_SORTED_KEYS TIMEZONE_ENTRIES_def by simp
  have m: "matchAlternative (Some 32) (js ''Eastern Standard Time'') (js ''Eastern'') =
         Some (js ''Eastern'', js '' Standard Time'')"
    by (simp add: js_def matchAlternative_def wordBoundary_def firstUnit_def lastUnit_def
        isWordChar_def canonicalize_def upperUnit_def)
  have l: "lastUnit None (js ''noon '') = Some 32" by (simp add: lastUnit_def js_def)
  have fp: "\<not> isFalsePositive (js ''Eastern Standard Time'')"
    by (simp add: isFalsePositive_def js_def)
  note t = longest_alias_wins[of "js ''noon Eastern Standard Time''" None "js ''noon ''"
      "js ''Eastern Standard Time''" "[]" "''America/New_York''"]
  from t eval_eastern_scan have
    longest: "\<forall>key' \<in> set SORTED_KEYS. \<forall>raw' rest'.
        matchAlternative (lastUnit None (js ''noon '')) (js ''Eastern Standard Time'' @ []) key' = Some (raw', rest')
        \<longrightarrow> length raw' \<le> length (js ''Eastern Standard Time'')"
    and accept: "\<not> isFalsePositive (js ''Eastern Standard Time'') \<longrightarrow>
        (\<exists>key zone. key \<in> set SORTED_KEYS
           \<and> findKey SORTED_KEYS (toLowerCase (js ''Eastern Standard Time'')) = Some key
           \<and> matchAlternative (lastUnit None (js ''noon '')) (js ''Eastern Standard Time'' @ []) key
                = Some (js ''Eastern Standard Time'', [])
           \<and> mapGet TIMEZONE_MAP key = Some zone
           \<and> detectLoop None (js ''noon Eastern Standard Time'') = Some zone)"
    by blast+
  from longest k m l have "length (js ''Eastern'') \<le> length (js ''Eastern Standard Time'')"
    by (metis append_Nil2)
  moreover from accept fp l have "\<exists>key zone. key \<in> set SORTED_KEYS
         \<and> findKey SORTED_KEYS (toLowerCase (js ''Eastern Standard Time'')) = Some key
         \<and> matchAlternative (Some 32) (js ''Eastern Standard Time'') key =
              Some (js ''Eastern Standard Time'', [])
         \<and> mapGet TIMEZONE_MAP key = Some zone
         \<and> detectLoop None (js ''noon Eastern Standard Time'') = Some zone"
    by simp
  ultimately show ?thesis using eval_eastern_scan fp k m by (intro conjI)
qed

text \<open>
  The claim as stated fails where the longest alias stands at a position the identifier
  does not answer at. In \<open>AT noon Eastern European Time\<close> the aliases \<open>Eastern\<close> and
  \<open>Eastern European Time\<close> overlap and the longest is the candidate there, with zone
  Europe/Helsinki; the identifier answers America/Halifax, at the earlier candidate \<open>AT\<close>.
  In \<open>9am cst+8\<close> the aliases \<open>CST\<close> and \<open>CST+8\<close> overlap; the longest is the candidate,
  a false positive, and the identifier answers \<open>null\<close>.
\<close>

theorem longest_alias_counterexample:
  "detectTimezone (js ''AT noon Eastern European Time'') = Some ''America/Halifax''
   \<and> regexExec SORTED_KEYS None (js ''AT noon Eastern European Time'') =
         Some ([], js ''AT'', js '' noon Eastern European Time'')
   \<and> regexExec SORTED_KEYS (Some 84) (js '' noon Eastern European Time'') =
         Some (js '' noon '', js ''Eastern European Time'', [])
   \<and> matchAlternative (Some 32) (js ''Eastern European Time'') (js ''Eastern'') =
         Some (js ''Eastern'', js '' European Time'')
   \<and> mapGet TIMEZONE_MAP (js ''Eastern European Time'') = Some ''Europe/Helsinki''
   \<and> detectTimezone (js ''9am cst+8'') = None
   \<and> regexExec SORTED_KEYS None (js ''9am cst+8'') = Some (js ''9am '', js ''cst+8'', [])
   \<and> matchAlternative (Some 32) (js ''cst+8'') (js ''CST'') = Some (js ''cst'', js ''+8'')
   \<and> mapGet TIMEZONE_MAP (js ''CST+8'') = Some ''Asia/Shanghai''"
proof -
  have m1: "matchAlternative (Some 32) (js ''Eastern European Time'') (js ''Eastern'') =
         Some (js ''Eastern'', js '' European Time'')"
    by (simp add: js_def matchAlternative_def wordBoundary_def firstUnit_def lastUnit_def
        isWordChar_def canonicalize_def upperUnit_def)
  have m2: "matchAlternative (Some 32) (js ''cst+8'') (js ''CST'') = Some (js ''cst'', js ''+8'')"
    by (simp add: js_def matchAlternative_def wordBoundary_def firstUnit_def lastUnit_def
        isWordChar_def canonicalize_def upperUnit_def)
  have g1: "mapGet TIMEZONE_MAP (js ''Eastern European Time'') = Some ''Europe/Helsinki''"
    by (simp add: mapGet_entries map_of_js_step js_def cong: map_of_cong0)
  have g2: "mapGet TIMEZONE_MAP (js ''CST+8'') = Some ''Asia/Shanghai''"
    by (simp add: mapGet_entries map_of_js_step js_def cong: map_of_cong0)
  from eval_at eval_at_scan eval_eet_scan m1 g1 eval_cst8_lower eval_cst8_lower_scan m2 g2
  show ?thesis by (intro conjI)
qed




text \<open>
  C10. \<open>detectTimezone\<close> reads the table and writes nothing of the module but the
  \<open>lastIndex\<close> of its pattern: whatever the state, the table after a call is the table
  before it, and an answer is a value of that table. With the table of the source the answer
  does not depend on the \<open>lastIndex\<close> an earlier call has left; it is \<open>null\<close> or the value
  \<open>TIMEZONE_MAP.get(key)\<close> for a key of the table that is equal, up to case, to a candidate
  of the scan, never the matched text in place of it. The value spells the same as the
  matched text only where the table maps an alias to itself, for \<open>UTC\<close> and \<open>GMT\<close>.
\<close>

theorem detect_returns_table_value:
  "tzMap (snd (detectTimezoneM m tx)) = tzMap m
   \<and> (fst (detectTimezoneM m tx) = Some z \<longrightarrow> z \<in> snd ` set (tzMap m))
   \<and> (tzMap m = TIMEZONE_MAP \<longrightarrow>
        fst (detectTimezoneM m tx) = detectTimezone tx
        \<and> (fst (detectTimezoneM m tx) = Some z \<longrightarrow>
             z \<in> snd ` set TIMEZONE_ENTRIES
             \<and> (\<exists>pre raw post key. tx = pre @ raw @ post
                  \<and> matchAt SORTED_KEYS (lastUnit None pre) (raw @ post) = Some (raw, post)
                  \<and> key \<in> set (mapKeys TIMEZONE_MAP)
                  \<and> toLowerCase key = toLowerCase raw
                  \<and> mapGet TIMEZONE_MAP key = Some z
                  \<and> (js z = raw \<longrightarrow> z = ''UTC'' \<or> z = ''GMT''))))"
proof -
  have a: "tzMap (snd (detectTimezoneM m tx)) = tzMap m" by (rule detectTimezoneM_table)
  have b: "fst (detectTimezoneM m tx) = Some z \<longrightarrow> z \<in> snd ` set (tzMap m)"
    using detectTimezoneM_value by blast
  have c: "tzMap m = TIMEZONE_MAP \<longrightarrow>
        fst (detectTimezoneM m tx) = detectTimezone tx
        \<and> (fst (detectTimezoneM m tx) = Some z \<longrightarrow>
             z \<in> snd ` set TIMEZONE_ENTRIES
             \<and> (\<exists>pre raw post key. tx = pre @ raw @ post
                  \<and> matchAt SORTED_KEYS (lastUnit None pre) (raw @ post) = Some (raw, post)
                  \<and> key \<in> set (mapKeys TIMEZONE_MAP)
                  \<and> toLowerCase key = toLowerCase raw
                  \<and> mapGet TIMEZONE_MAP key = Some z
                  \<and> (js z = raw \<longrightarrow> z = ''UTC'' \<or> z = ''GMT'')))"
  proof
    assume t: "tzMap m = TIMEZONE_MAP"
    note r = detectTimezoneM_result[OF t, of tx]
    have "z \<in> snd ` set TIMEZONE_ENTRIES
             \<and> (\<exists>pre raw post key. tx = pre @ raw @ post
                  \<and> matchAt SORTED_KEYS (lastUnit None pre) (raw @ post) = Some (raw, post)
                  \<and> key \<in> set (mapKeys TIMEZONE_MAP)
                  \<and> toLowerCase key = toLowerCase raw
                  \<and> mapGet TIMEZONE_MAP key = Some z
                  \<and> (js z = raw \<longrightarrow> z = ''UTC'' \<or> z = ''GMT''))"
      if s: "fst (detectTimezoneM m tx) = Some z"
    proof -
      from s r have d: "detectTimezone tx = Some z" by simp
      from detectTimezoneM_value[OF s] t have "z \<in> snd ` set TIMEZONE_MAP" by simp
      then have "z \<in> snd ` set TIMEZONE_ENTRIES" by (force simp: TIMEZONE_MAP_def)
      with detect_table_value[OF d] show ?thesis by (intro conjI)
    qed
    with r show "fst (detectTimezoneM m tx) = detectTimezone tx
        \<and> (fst (detectTimezoneM m tx) = Some z \<longrightarrow>
             z \<in> snd ` set TIMEZONE_ENTRIES
             \<and> (\<exists>pre raw post key. tx = pre @ raw @ post
                  \<and> matchAt SORTED_KEYS (lastUnit None pre) (raw @ post) = Some (raw, post)
                  \<and> key \<in> set (mapKeys TIMEZONE_MAP)
                  \<and> toLowerCase key = toLowerCase raw
                  \<and> mapGet TIMEZONE_MAP key = Some z
                  \<and> (js z = raw \<longrightarrow> z = ''UTC'' \<or> z = ''GMT'')))"
      by blast
  qed
  from a b c show ?thesis by (intro conjI)
qed

theorem detect_returns_table_value_witness:
  "tzMap \<lparr>tzMap = TIMEZONE_MAP, lastIndex = 5\<rparr> = TIMEZONE_MAP
   \<and> fst (detectTimezoneM \<lparr>tzMap = TIMEZONE_MAP, lastIndex = 5\<rparr> (js ''3pm EST''))
        = Some ''America/New_York''
   \<and> snd (detectTimezoneM \<lparr>tzMap = TIMEZONE_MAP, lastIndex = 5\<rparr> (js ''3pm EST''))
        = \<lparr>tzMap = TIMEZONE_MAP, lastIndex = 7\<rparr>
   \<and> ''America/New_York'' \<in> snd ` set TIMEZONE_ENTRIES
   \<and> (\<exists>pre raw post key. js ''3pm EST'' = pre @ raw @ post
           \<and> matchAt SORTED_KEYS (lastUnit None pre) (raw @ post) = Some (raw, post)
           \<and> key \<in> set (mapKeys TIMEZONE_MAP)
           \<and> toLowerCase key = toLowerCase raw
           \<and> mapGet TIMEZONE_MAP key = Some ''America/New_York''
           \<and> js ''America/New_York'' \<noteq> raw)"
proof -
  let ?m = "\<lparr>tzMap = TIMEZONE_MAP, lastIndex = 5\<rparr>"
  have t: "tzMap ?m = TIMEZONE_MAP" by simp
  note inst = detect_returns_table_value[of ?m "js ''3pm EST''" "''America/New_York''"]
  from inst t eval_est have r: "fst (detectTimezoneM ?m (js ''3pm EST'')) = Some ''America/New_York''"
    by simp
  with inst t have "''America/New_York'' \<in> snd ` set TIMEZONE_ENTRIES
     \<and> (\<exists>pre raw post key. js ''3pm EST'' = pre @ raw @ post
           \<and> matchAt SORTED_KEYS (lastUnit None pre) (raw @ post) = Some (raw, post)
           \<and> key \<in> set (mapKeys TIMEZONE_MAP)
           \<and> toLowerCase key = toLowerCase raw
           \<and> mapGet TIMEZONE_MAP key = Some ''America/New_York''
           \<and> (js ''America/New_York'' = raw \<longrightarrow> ''America/New_York'' = ''UTC'' \<or> ''America/New_York'' = ''GMT''))"
    by blast
  then have "''America/New_York'' \<in> snd ` set TIMEZONE_ENTRIES
     \<and> (\<exists>pre raw post key. js ''3pm EST'' = pre @ raw @ post
           \<and> matchAt SORTED_KEYS (lastUnit None pre) (raw @ post) = Some (raw, post)
           \<and> key \<in> set (mapKeys TIMEZONE_MAP)
           \<and> toLowerCase key = toLowerCase raw
           \<and> mapGet TIMEZONE_MAP key = Some ''America/New_York''
           \<and> js ''America/New_York'' \<noteq> raw)"
    by simp
  with t r eval_est_state show ?thesis by (intro conjI) simp_all
qed

section \<open>The calendar\<close>

lemma MonthFromDay_range: "0 \<le> MonthFromDay leap d \<and> MonthFromDay leap d \<le> 11"
  by (simp add: MonthFromDay_def)

lemma MakeDay_fields:
  "MakeDay (YearFromTime l) (MonthFromTime l) (DateFromTime l) = Day l"
proof -
  have r: "0 \<le> MonthFromTime l" "MonthFromTime l \<le> 11"
    using MonthFromDay_range by (simp_all add: MonthFromTime_def)
  then have "MonthFromTime l div 12 = 0" "MonthFromTime l mod 12 = MonthFromTime l" by simp_all
  then show ?thesis
    by (simp add: MakeDay_def Let_def DateFromTime_def DayWithinYear_def)
qed

lemma div_1000_60: "(l::int) div 60000 = l div 1000 div 60"
proof -
  have "l div (1000 * 60) = l div 1000 div 60" by (rule zdiv_zmult2_eq) simp
  then show ?thesis by simp
qed

lemma div_1000_3600: "(l::int) div 3600000 = l div 1000 div 60 div 60"
proof -
  have "l div (60000 * 60) = l div 60000 div 60" by (rule zdiv_zmult2_eq) simp
  then show ?thesis by (simp add: div_1000_60)
qed

lemma div_1000_86400: "(l::int) div 86400000 = l div 1000 div 60 div 60 div 24"
proof -
  have "l div (3600000 * 24) = l div 3600000 div 24" by (rule zdiv_zmult2_eq) simp
  then show ?thesis by (simp add: div_1000_3600)
qed

lemma mod_86400000: "(l::int) mod 86400000 =
    3600000 * (l div 1000 div 60 div 60 mod 24) + 60000 * (l div 1000 div 60 mod 60)
    + 1000 * (l div 1000 mod 60) + l mod 1000"
proof -
  have p: "(3600000::int) * 24 = 86400000" "(60000::int) * 60 = 3600000" "(1000::int) * 60 = 60000"
    by simp_all
  have a: "l mod (3600000 * 24) = 3600000 * (l div 3600000 mod 24) + l mod 3600000"
    by (rule zmod_zmult2_eq) simp
  have b: "l mod (60000 * 60) = 60000 * (l div 60000 mod 60) + l mod 60000"
    by (rule zmod_zmult2_eq) simp
  have c: "l mod (1000 * 60) = 1000 * (l div 1000 mod 60) + l mod 1000"
    by (rule zmod_zmult2_eq) simp
  show ?thesis
    unfolding a[unfolded p] b[unfolded p] c[unfolded p] div_1000_60 div_1000_3600
    by (simp only: add.assoc)
qed

lemma MakeTime_fields:
  "MakeTime (HourFromTime l) (MinFromTime l) (SecFromTime l) 0 = l mod 86400000 - l mod 1000"
  unfolding MakeTime_def HourFromTime_def MinFromTime_def SecFromTime_def
    mod_86400000 div_1000_60 div_1000_3600
  by (simp only: mult.commute add_0_right add_diff_cancel_right')

text \<open>Building a time value from the fields of a time value gives it back, to the second.\<close>

lemma MakeDate_fields:
  "MakeDate (MakeDay (YearFromTime l) (MonthFromTime l) (DateFromTime l))
            (MakeTime (HourFromTime l) (MinFromTime l) (SecFromTime l) 0) = l - l mod 1000"
proof -
  have "l div 86400000 * 86400000 + l mod 86400000 = l" by (rule div_mult_mod_eq)
  then show ?thesis
    unfolding MakeDay_fields MakeTime_fields MakeDate_def Day_def msPerDay_def by linarith
qed

lemma floor_second: "(l::int) - l mod 1000 = 1000 * (l div 1000)"
  using div_mult_mod_eq[of l 1000] by linarith

lemma civilOf_seconds: "civilOf (l - l mod 1000) = civilOf l"
proof -
  have k: "(1000 * (l div 1000)) div 1000 = l div 1000" by simp
  have d: "Day (l - l mod 1000) = Day l"
    unfolding Day_def msPerDay_def floor_second by (simp only: div_1000_86400 k)
  have h: "HourFromTime (l - l mod 1000) = HourFromTime l"
    unfolding HourFromTime_def floor_second by (simp only: div_1000_3600 k)
  have m: "MinFromTime (l - l mod 1000) = MinFromTime l"
    unfolding MinFromTime_def floor_second by (simp only: div_1000_60 k)
  have s: "SecFromTime (l - l mod 1000) = SecFromTime l"
    unfolding SecFromTime_def floor_second by (simp only: k)
  from d have y: "YearFromTime (l - l mod 1000) = YearFromTime l" by (simp add: YearFromTime_def)
  from d y have w: "DayWithinYear (l - l mod 1000) = DayWithinYear l" by (simp add: DayWithinYear_def)
  from y w have mo: "MonthFromTime (l - l mod 1000) = MonthFromTime l" by (simp add: MonthFromTime_def)
  from y w mo have da: "DateFromTime (l - l mod 1000) = DateFromTime l" by (simp add: DateFromTime_def)
  show ?thesis by (simp add: civilOf_def y mo da h m s)
qed

lemma YearFromDay_near:
  "1970 + (d * 400) div 146097 - 1 \<le> YearFromDay d \<and> YearFromDay d \<le> 1970 + (d * 400) div 146097 + 1"
  by (simp add: YearFromDay_def Let_def)

lemma year_range_day:
  assumes "1000 \<le> YearFromDay d" "YearFromDay d \<le> 9999"
  shows "- 355000 \<le> d \<and> d \<le> 2934000"
  using assms YearFromDay_near[of d] by linarith

lemma day_year_ge:
  assumes "- 356000 \<le> d"
  shows "100 \<le> YearFromDay d"
  using assms YearFromDay_near[of d] by linarith

section \<open>Facts about the parser\<close>





















lemma zoneLocal_unknown: "zoneOffset h tz = None \<Longrightarrow> zoneLocal h tz d = Inl (RangeError_timeZone tz)"
  by (simp add: zoneLocal_def)

lemma zoneLocal_Inr: "zoneLocal h tz d = Inr l \<Longrightarrow> zoneOffset h tz \<noteq> None"
  by (auto simp: zoneLocal_def split: option.splits)

lemma unknown_zone_throws:
  assumes "zoneOffset h tz = None"
  shows "getUtcOffset h d tz = Inl (RangeError_timeZone tz)"
    "wallClockToUTC h p tz = Inl (RangeError_timeZone tz)"
    "displayDateFmt h tz d = Inl (RangeError_timeZone tz)"
    "startTimeFmt h tz d = Inl (RangeError_timeZone tz)"
    "endTimeFmt h tz d = Inl (RangeError_timeZone tz)"
    "displayTZPart h tz d = Inl (RangeError_timeZone tz)"
    "civilInZone h tz d = Inl (RangeError_timeZone tz)"
  using zoneLocal_unknown[OF assms]
  by (simp_all add: getUtcOffset_def wallClockToUTC_def formatToParts_def displayDateFmt_def
      startTimeFmt_def endTimeFmt_def displayTZPart_def civilInZone_def Let_def)

lemma getUtcOffset_Inr: "getUtcOffset h d tz = Inr x \<Longrightarrow> zoneOffset h tz \<noteq> None"
  by (auto simp: getUtcOffset_def formatToParts_def zoneLocal_def split: option.splits sum.splits)

lemma wallClockToUTC_Inr: "wallClockToUTC h p tz = Inr x \<Longrightarrow> zoneOffset h tz \<noteq> None"
  by (auto simp: wallClockToUTC_def Let_def split: sum.splits dest: getUtcOffset_Inr)

lemma displayDateFmt_Inr: "displayDateFmt h tz d = Inr x \<Longrightarrow> zoneOffset h tz \<noteq> None"
  by (auto simp: displayDateFmt_def split: sum.splits dest: zoneLocal_Inr)

lemma convertParsed_Inr:
  assumes "convertParsed h parsed from to = Inr conv"
  shows "zoneOffset h from \<noteq> None \<and> zoneOffset h to \<noteq> None"
proof -
  from assms obtain u where "wallClockToUTC h (pStart parsed) from = Inr u"
    by (auto simp: convertParsed_def split: sum.splits)
  then have a: "zoneOffset h from \<noteq> None" by (rule wallClockToUTC_Inr)
  from assms obtain u x where "displayDateFmt h to u = Inr x"
    by (auto simp: convertParsed_def split: sum.splits)
  then have "zoneOffset h to \<noteq> None" by (rule displayDateFmt_Inr)
  with a show ?thesis by simp
qed

lemma convertParsed_unknown:
  assumes "zoneOffset h from = None \<or> zoneOffset h to = None"
  shows "\<exists>e. convertParsed h parsed from to = Inl e"
proof (cases "convertParsed h parsed from to")
  case (Inl e)
  then show ?thesis by blast
next
  case (Inr conv)
  from convertParsed_Inr[OF Inr] assms show ?thesis by auto
qed

lemma updateResult_error:
  assumes "convertParsed h parsed from to = Inl e"
  shows "updateResult h box parsed from to =
     box\<lparr>resultDate := [], resultTime := js ''Conversion error'', resultTZ := errorMessage h e\<rparr>"
  using assms by (simp add: updateResult_def)

section \<open>parser.js and dialog.js: claims\<close>






text \<open>
  C8. \<open>parseSelectedText\<close> gives the extractor the normalized text. When the extractor
  finds nothing there (no result list, or an empty one) the function returns \<open>null\<close>,
  and it returns \<open>null\<close> in no other case. The function throws nothing of its own: an
  exception leaves it only if the extractor has thrown it.
\<close>

theorem no_match_returns_null:
  "(extract (normalizeForChrono tx) (Some clock) = Inr None \<longrightarrow>
      parseSelectedText h extract clock tx = Inr None)
   \<and> (extract (normalizeForChrono tx) (Some clock) = Inr (Some []) \<longrightarrow>
      parseSelectedText h extract clock tx = Inr None)
   \<and> (parseSelectedText h extract clock tx = Inr None \<longrightarrow>
      extract (normalizeForChrono tx) (Some clock) = Inr None
      \<or> extract (normalizeForChrono tx) (Some clock) = Inr (Some []))
   \<and> (parseSelectedText h extract clock tx = Inl e \<longrightarrow>
      extract (normalizeForChrono tx) (Some clock) = Inl e)"
  by (auto simp: parseSelectedText_def Let_def split: sum.splits option.splits list.splits)

theorem no_match_returns_null_witness:
  "normalizeForChrono (js ''hello | world'') = js ''hello , world''
   \<and> (\<lambda>s r. if s = js ''hello , world'' then Inr (Some []) else Inl (Thrown s))
        (normalizeForChrono (js ''hello | world'')) (Some 0) = Inr (Some [])
   \<and> parseSelectedText host2025
        (\<lambda>s r. if s = js ''hello , world'' then Inr (Some []) else Inl (Thrown s)) 0
        (js ''hello | world'') = Inr None"
proof -
  have n: "normalizeForChrono (js ''hello | world'') = js ''hello , world''"
    by (simp add: normalizeForChrono_def replaceSeparators_def trim_def js_def isSpaceUnit_def)
  let ?x = "\<lambda>s r. if s = js ''hello , world'' then Inr (Some []) else Inl (Thrown s)"
  have x: "?x (normalizeForChrono (js ''hello | world'')) (Some 0) = Inr (Some [])"
    unfolding n by simp
  from no_match_returns_null[of ?x "js ''hello | world''" 0 host2025, THEN conjunct2, THEN conjunct1]
    x
  have "parseSelectedText host2025 ?x 0 (js ''hello | world'') = Inr None" by (rule mp)
  with n x show ?thesis by (intro conjI)
qed

text \<open>
  C3. \<open>new Intl.DateTimeFormat\<close> throws a \<open>RangeError\<close> for a time zone the host does not
  know, and the program catches it nowhere on the way: \<open>getUtcOffset\<close>, \<open>wallClockToUTC\<close>
  and the formatters of \<open>convertParsed\<close> end with that error, \<open>convertParsed\<close> ends with
  an error when the source or the target zone is unknown, and it returns a result only when
  the host knows both zones. The caller, \<open>updateResult\<close>, catches the error and shows
  \<open>Conversion error\<close> with the message in place of a result.
\<close>

theorem unknown_zone_is_error:
  "(zoneOffset h tz = None \<longrightarrow>
      getUtcOffset h d tz = Inl (RangeError_timeZone tz)
      \<and> wallClockToUTC h p tz = Inl (RangeError_timeZone tz)
      \<and> displayDateFmt h tz d = Inl (RangeError_timeZone tz)
      \<and> startTimeFmt h tz d = Inl (RangeError_timeZone tz)
      \<and> endTimeFmt h tz d = Inl (RangeError_timeZone tz)
      \<and> displayTZPart h tz d = Inl (RangeError_timeZone tz))
   \<and> (zoneOffset h from = None \<longrightarrow>
        convertParsed h parsed from to = Inl (RangeError_timeZone from))
   \<and> (zoneOffset h to = None \<longrightarrow> (\<exists>e. convertParsed h parsed from to = Inl e))
   \<and> (convertParsed h parsed from to = Inr conv \<longrightarrow>
        zoneOffset h from \<noteq> None \<and> zoneOffset h to \<noteq> None)
   \<and> (zoneOffset h from = None \<or> zoneOffset h to = None \<longrightarrow>
        (\<exists>e. updateResult h box parsed from to =
           box\<lparr>resultDate := [], resultTime := js ''Conversion error'',
               resultTZ := errorMessage h e\<rparr>))"
proof -
  have a: "zoneOffset h tz = None \<longrightarrow>
      getUtcOffset h d tz = Inl (RangeError_timeZone tz)
      \<and> wallClockToUTC h p tz = Inl (RangeError_timeZone tz)
      \<and> displayDateFmt h tz d = Inl (RangeError_timeZone tz)
      \<and> startTimeFmt h tz d = Inl (RangeError_timeZone tz)
      \<and> endTimeFmt h tz d = Inl (RangeError_timeZone tz)
      \<and> displayTZPart h tz d = Inl (RangeError_timeZone tz)"
    using unknown_zone_throws[of h tz] by blast
  have b: "zoneOffset h from = None \<longrightarrow>
        convertParsed h parsed from to = Inl (RangeError_timeZone from)"
    using unknown_zone_throws(2)[of h "from"] by (simp add: convertParsed_def)
  have c: "zoneOffset h to = None \<longrightarrow> (\<exists>e. convertParsed h parsed from to = Inl e)"
    using convertParsed_unknown by blast
  have d: "convertParsed h parsed from to = Inr conv \<longrightarrow>
        zoneOffset h from \<noteq> None \<and> zoneOffset h to \<noteq> None"
    using convertParsed_Inr by blast
  have e: "zoneOffset h from = None \<or> zoneOffset h to = None \<longrightarrow>
        (\<exists>e. updateResult h box parsed from to =
           box\<lparr>resultDate := [], resultTime := js ''Conversion error'',
               resultTZ := errorMessage h e\<rparr>)"
    using convertParsed_unknown[of h "from" to parsed] updateResult_error by blast
  from a b c d e show ?thesis by (intro conjI)
qed

theorem unknown_zone_is_error_witness:
  "zoneOffset host2025 ''Mars/Olympus'' = None
   \<and> zoneOffset host2025 ''America/New_York'' \<noteq> None
   \<and> wallClockToUTC host2025 (Some 1739988000000) ''Mars/Olympus''
        = Inl (RangeError_timeZone ''Mars/Olympus'')
   \<and> convertParsed host2025 \<lparr>pStart = Some 1739988000000, pEnd = None, hasRange = False\<rparr>
        ''Mars/Olympus'' ''America/New_York'' = Inl (RangeError_timeZone ''Mars/Olympus'')
   \<and> (\<exists>e. convertParsed host2025 \<lparr>pStart = Some 1739988000000, pEnd = None, hasRange = False\<rparr>
        ''America/New_York'' ''Mars/Olympus'' = Inl e)
   \<and> (\<exists>e. updateResult host2025
          \<lparr>resultDate = [], resultTime = [], resultTZ = [], copyText = None\<rparr>
          \<lparr>pStart = Some 1739988000000, pEnd = None, hasRange = False\<rparr>
          ''America/New_York'' ''Mars/Olympus''
        = \<lparr>resultDate = [], resultTime = js ''Conversion error'',
            resultTZ = errorMessage host2025 e, copyText = None\<rparr>)"
proof -
  let ?p = "\<lparr>pStart = Some 1739988000000, pEnd = None, hasRange = False\<rparr>"
  let ?b = "\<lparr>resultDate = [], resultTime = [], resultTZ = [], copyText = None\<rparr>"
  have u: "zoneOffset host2025 ''Mars/Olympus'' = None" by (simp add: host2025_def rules2025_def)
  have k: "zoneOffset host2025 ''America/New_York'' \<noteq> None"
    by (simp add: host2025_def rules2025_def)
  note i1 = unknown_zone_is_error[of host2025 "''Mars/Olympus''" "Some 1739988000000"
      "Some 1739988000000" "''Mars/Olympus''" ?p "''America/New_York''" _ ?b]
  note i2 = unknown_zone_is_error[of host2025 "''Mars/Olympus''" "Some 1739988000000"
      "Some 1739988000000" "''America/New_York''" ?p "''Mars/Olympus''" _ ?b]
  from i1[THEN conjunct1, rule_format, OF u]
  have w: "wallClockToUTC host2025 (Some 1739988000000) ''Mars/Olympus''
        = Inl (RangeError_timeZone ''Mars/Olympus'')" by blast
  from i1[THEN conjunct2, THEN conjunct1, rule_format, OF u]
  have c1: "convertParsed host2025 ?p ''Mars/Olympus'' ''America/New_York''
      = Inl (RangeError_timeZone ''Mars/Olympus'')" .
  from i2[THEN conjunct2, THEN conjunct2, THEN conjunct1, rule_format, OF u]
  have c2: "\<exists>e. convertParsed host2025 ?p ''America/New_York'' ''Mars/Olympus'' = Inl e" .
  from i2[THEN conjunct2, THEN conjunct2, THEN conjunct2, THEN conjunct2, rule_format, OF disjI2[OF u]]
  have c3: "\<exists>e. updateResult host2025 ?b ?p ''America/New_York'' ''Mars/Olympus''
        = \<lparr>resultDate = [], resultTime = js ''Conversion error'',
            resultTZ = errorMessage host2025 e, copyText = None\<rparr>" by simp
  from u k w c1 c2 c3 show ?thesis by (intro conjI)
qed

end
